theory Spec2Isabelle
  imports Complex_Main "HOL-Library.Word"
begin

unbundle bit_operations_syntax

section \<open>Constants of distiller_display_sdk.h\<close>

type_synonym byte = "8 word"

definition EPD_WIDTH :: nat where
  "EPD_WIDTH = 128"

definition EPD_HEIGHT :: nat where
  "EPD_HEIGHT = 250"

definition EPD_ARRAY :: nat where
  "EPD_ARRAY = (EPD_WIDTH * EPD_HEIGHT) div 8"

definition DC_PIN :: int where
  "DC_PIN = 7"

definition RST_PIN :: int where
  "RST_PIN = 13"

definition BUSY_PIN :: int where
  "BUSY_PIN = 9"

definition CS_PIN :: int where
  "CS_PIN = 8"

datatype display_mode_t = DISPLAY_MODE_FULL | DISPLAY_MODE_PARTIAL

section \<open>Image codec: convert_png_to_1bit\<close>

text \<open>
  What \<open>lodepng_decode32_file\<close> hands back: its error code (0 on success), the image
  size and the RGBA samples, four bytes per pixel, rows top to bottom. The decoder is
  an external library; the codec takes it as a function from file names to results.
\<close>

record decoded =
  png_error :: nat
  png_width :: nat
  png_height :: nat
  png_image :: "byte list"

text \<open>The lines the library prints, one constructor per \<open>printf\<close>/\<open>perror\<close> call site.\<close>

datatype message =
    Err_gpio_set int int
  | Warn_busy_timeout
  | Err_spi_command_transfer
  | Err_spi_data_transfer
  | Err_opening_spi
  | Err_configuring_spi
  | Err_opening_gpio_chip
  | Err_get_gpio_lines
  | Err_configure_gpio_lines
  | Info_initialized
  | Err_not_initialized_or_invalid_data
  | Err_not_initialized_or_invalid_filename
  | Err_convert_png
  | Err_not_initialized
  | Info_cleaned_up
  | Err_loading_png nat
  | Err_png_dimensions nat nat nat nat

text \<open>Arithmetic on C's \<open>unsigned\<close> (32 bits) wraps around.\<close>

definition u32 :: "nat \<Rightarrow> nat" where
  "u32 n = n mod 2 ^ 32"

text \<open>
  \<open>memset(buf, c, n)\<close> on a buffer given by its contents. Writing past the end of the
  buffer is undefined behaviour in C; the model returns \<open>None\<close> there.
\<close>

definition memset :: "byte list \<Rightarrow> byte \<Rightarrow> nat \<Rightarrow> byte list option" where
  "memset buf c n = (if n \<le> length buf then Some (replicate n c @ drop n buf) else None)"

text \<open>
  The body of the inner loop of \<open>convert_png_to_1bit\<close> at pixel \<open>(x, y)\<close>. The three
  channel samples are promoted to \<open>int\<close>, added and divided by 3 (truncating), and the
  quotient is stored in an \<open>unsigned char\<close>. \<open>None\<close> stands for a read outside the
  decoded samples or a write outside the output buffer. (\<open>rgba_idx\<close> is a multiple of 4
  below \<open>2 ^ 32\<close>, so \<open>rgba_idx + 2\<close> does not wrap.)
\<close>

definition pack_pixel :: "byte list \<Rightarrow> nat \<Rightarrow> nat \<Rightarrow> nat \<Rightarrow> byte list \<Rightarrow> byte list option" where
  "pack_pixel image_data width y x output_data =
     (let pixel_idx = u32 (y * width + x);
          rgba_idx = u32 (pixel_idx * 4)
      in if length image_data \<le> rgba_idx + 2 then None
         else
           let gray = (of_nat ((unat (image_data ! rgba_idx)
                                + unat (image_data ! (rgba_idx + 1))
                                + unat (image_data ! (rgba_idx + 2))) div 3) :: byte);
               bit = (if 128 < gray then 1 else 0 :: byte);
               bit_idx = pixel_idx;
               byte_idx = bit_idx div 8;
               bit_pos = 7 - (bit_idx mod 8)
           in if bit \<noteq> 0
              then (if byte_idx < length output_data
                    then Some (output_data[byte_idx := (output_data ! byte_idx) OR push_bit bit_pos 1])
                    else None)
              else Some output_data)"

text \<open>\<open>for (unsigned x = 0; x < width; x++)\<close>, entered at column \<open>x\<close>.\<close>

function convert_cols :: "byte list \<Rightarrow> nat \<Rightarrow> nat \<Rightarrow> nat \<Rightarrow> byte list \<Rightarrow> byte list option" where
  "convert_cols image_data width y x output_data =
     (if x < width
      then (case pack_pixel image_data width y x output_data of
              None \<Rightarrow> None
            | Some output_data' \<Rightarrow> convert_cols image_data width y (Suc x) output_data')
      else Some output_data)"
  by pat_completeness auto
termination
  by (relation "measure (\<lambda>(image_data, width, y, x, output_data). width - x)") auto

text \<open>\<open>for (unsigned y = 0; y < height; y++)\<close>, entered at row \<open>y\<close>.\<close>

function convert_rows :: "byte list \<Rightarrow> nat \<Rightarrow> nat \<Rightarrow> nat \<Rightarrow> byte list \<Rightarrow> byte list option" where
  "convert_rows image_data width height y output_data =
     (if y < height
      then (case convert_cols image_data width y 0 output_data of
              None \<Rightarrow> None
            | Some output_data' \<Rightarrow> convert_rows image_data width height (Suc y) output_data')
      else Some output_data)"
  by pat_completeness auto
termination
  by (relation "measure (\<lambda>(image_data, width, height, y, output_data). height - y)") auto

declare convert_cols.simps [simp del] convert_rows.simps [simp del]

text \<open>
  \<open>convert_png_to_1bit(filename, output_data)\<close>. A pointer argument is \<open>None\<close> when it
  is \<open>NULL\<close>; the output buffer is given by its contents. The result is \<open>None\<close> when
  the C code would leave a buffer, and otherwise the returned flag, the output buffer
  afterwards and the lines printed.
\<close>

definition convert_png_to_1bit ::
  "(string \<Rightarrow> decoded) \<Rightarrow> string option \<Rightarrow> byte list option
     \<Rightarrow> (bool \<times> byte list option \<times> message list) option" where
  "convert_png_to_1bit lodepng_decode32_file filename output_data =
     (case filename of
        None \<Rightarrow> Some (False, output_data, [])
      | Some name \<Rightarrow>
         (case output_data of
            None \<Rightarrow> Some (False, output_data, [])
          | Some buf \<Rightarrow>
              let d = lodepng_decode32_file name in
              if png_error d \<noteq> 0
              then Some (False, Some buf, [Err_loading_png (png_error d)])
              else if png_width d \<noteq> EPD_WIDTH \<or> png_height d \<noteq> EPD_HEIGHT
              then Some (False, Some buf,
                         [Err_png_dimensions (png_width d) (png_height d) EPD_WIDTH EPD_HEIGHT])
              else (case memset buf 0 EPD_ARRAY of
                      None \<Rightarrow> None
                    | Some buf0 \<Rightarrow>
                       (case convert_rows (png_image d) (png_width d) (png_height d) 0 buf0 of
                          None \<Rightarrow> None
                        | Some buf1 \<Rightarrow> Some (True, Some buf1, [])))))"

text \<open>
  The classification the codec computes for pixel number \<open>p\<close> (row-major) of an RGBA
  sample array: the truncated mean of the three colour samples against 128.
\<close>

definition classified_white :: "byte list \<Rightarrow> nat \<Rightarrow> bool" where
  "classified_white image_data p \<longleftrightarrow>
     128 < (unat (image_data ! (4 * p)) + unat (image_data ! (4 * p + 1))
            + unat (image_data ! (4 * p + 2))) div 3"

subsection \<open>Descriptions used in the codec's statements\<close>

text \<open>
  The loop invariant of the conversion: when the first \<open>n\<close> pixels have been handled,
  the buffer has kept its length, nothing beyond the frame has changed, and the bit of
  every pixel is set exactly for the handled pixels that are classified white.
\<close>

definition frame_inv :: "byte list \<Rightarrow> byte list \<Rightarrow> nat \<Rightarrow> byte list \<Rightarrow> bool" where
  "frame_inv img buf n out \<longleftrightarrow>
     length out = length buf \<and> drop 4000 out = drop 4000 buf \<and>
     (\<forall>q<32000. bit (out ! (q div 8)) (7 - q mod 8) \<longleftrightarrow> q < n \<and> classified_white img q)"

text \<open>
  An RGBA sample array of 128 by 250 pixels in which pixel \<open>(0, 0)\<close> is white
  (255, 255, 255) and every other pixel is black (0, 0, 0), whatever the alpha samples.
\<close>

definition white_at_origin_only :: "byte list \<Rightarrow> bool" where
  "white_at_origin_only image_data \<longleftrightarrow>
     image_data ! 0 = 255 \<and> image_data ! 1 = 255 \<and> image_data ! 2 = 255 \<and>
     (\<forall>p\<in>{1..<32000}. image_data ! (4 * p) = 0 \<and> image_data ! (4 * p + 1) = 0
                          \<and> image_data ! (4 * p + 2) = 0)"

text \<open>
  The classification in the specification's words: the luminance is the unweighted mean
  of the red, green and blue samples, and the pixel is white when that mean strictly
  exceeds 128.
\<close>

definition luminance_exceeds_threshold :: "byte \<Rightarrow> byte \<Rightarrow> byte \<Rightarrow> bool" where
  "luminance_exceeds_threshold r g b \<longleftrightarrow>
     128 < (real (unat r) + real (unat g) + real (unat b)) / 3"

section \<open>Panel driver\<close>

subsection \<open>State and transport\<close>

text \<open>
  Every call the driver makes on the operating system (spidev, libgpiod, \<open>usleep\<close>),
  with the arguments that matter. \<open>Spi_transfer fd b\<close> is the one-byte
  \<open>SPI_IOC_MESSAGE(1)\<close> ioctl sending \<open>b\<close>.
\<close>

type_synonym ptr = int

datatype call =
    Usleep nat
  | Gpiod_line_set_value ptr int
  | Gpiod_line_get_value ptr
  | Spi_transfer int byte
  | Open_spidev
  | Ioctl_wr_mode int
  | Ioctl_wr_bits_per_word int
  | Ioctl_wr_max_speed_hz int
  | Close int
  | Gpiod_chip_open_by_name
  | Gpiod_chip_get_line ptr int
  | Gpiod_line_request_output ptr int
  | Gpiod_line_request_input ptr
  | Gpiod_line_release ptr
  | Gpiod_chip_close ptr

text \<open>
  The driver's static variables, followed by its surroundings: the calls made so far
  (oldest first), the lines printed so far, and the value the operating system returns
  to the call made when \<open>n\<close> calls have gone before. A pointer is an address, \<open>0\<close>
  for \<open>NULL\<close>.
\<close>

record driver =
  spi_fd :: int
  chip :: ptr
  dc_line :: ptr
  rst_line :: ptr
  busy_line :: ptr
  initialized :: bool
  calls :: "call list"
  console :: "message list"
  answer :: "nat \<Rightarrow> int"

definition startup :: "(nat \<Rightarrow> int) \<Rightarrow> driver" where
  "startup os = \<lparr>spi_fd = - 1, chip = 0, dc_line = 0, rst_line = 0, busy_line = 0,
                 initialized = False, calls = [], console = [], answer = os\<rparr>"

definition syscall :: "call \<Rightarrow> driver \<Rightarrow> int \<times> driver" where
  "syscall c s = (answer s (length (calls s)), s\<lparr>calls := calls s @ [c]\<rparr>)"

definition print :: "message \<Rightarrow> driver \<Rightarrow> driver" where
  "print m s = s\<lparr>console := console s @ [m]\<rparr>"

text \<open>A block of statements, run first to last.\<close>

definition run :: "(driver \<Rightarrow> driver) list \<Rightarrow> driver \<Rightarrow> driver" where
  "run stmts s = fold (\<lambda>stmt. stmt) stmts s"

subsection \<open>Private functions\<close>

definition delay_ms :: "nat \<Rightarrow> driver \<Rightarrow> driver" where
  "delay_ms ms s = snd (syscall (Usleep (ms * 1000)) s)"

definition gpio_write :: "int \<Rightarrow> int \<Rightarrow> driver \<Rightarrow> driver" where
  "gpio_write pin val s =
     (let line = (if pin = DC_PIN then dc_line s
                  else if pin = RST_PIN then rst_line s
                  else 0)
      in if line \<noteq> 0
         then (let (r, s1) = syscall (Gpiod_line_set_value line val) s
               in if r < 0 then print (Err_gpio_set pin val) s1 else s1)
         else s)"

definition gpio_read :: "int \<Rightarrow> driver \<Rightarrow> int \<times> driver" where
  "gpio_read pin s =
     (if pin = BUSY_PIN \<and> busy_line s \<noteq> 0
      then syscall (Gpiod_line_get_value (busy_line s)) s
      else (- 1, s))"

definition spi_delay :: "driver \<Rightarrow> driver" where
  "spi_delay s = snd (syscall (Usleep 10) s)"

text \<open>
  The \<open>while\<close> loop of \<open>lcd_chkstatus\<close>, entered with the watchdog counter at
  \<open>watchdog_counter\<close>; it returns the counter on exit. The busy line is read before
  the counter is compared, as \<open>&&\<close> evaluates left to right.
\<close>

function lcd_chkstatus_loop :: "int \<Rightarrow> driver \<Rightarrow> int \<times> driver" where
  "lcd_chkstatus_loop watchdog_counter s =
     (let (busy, s1) = gpio_read BUSY_PIN s
      in if busy = 1 \<and> watchdog_counter < 1000
         then lcd_chkstatus_loop (watchdog_counter + 1) (delay_ms 10 s1)
         else (watchdog_counter, s1))"
  by pat_completeness auto
termination
  by (relation "measure (\<lambda>(watchdog_counter, s). nat (1000 - watchdog_counter))") auto

declare lcd_chkstatus_loop.simps [simp del]

definition lcd_chkstatus :: "driver \<Rightarrow> driver" where
  "lcd_chkstatus s =
     (let (watchdog_counter, s1) = lcd_chkstatus_loop 0 s
      in if 1000 \<le> watchdog_counter then print Warn_busy_timeout s1 else s1)"

definition epd_w21_write_cmd :: "byte \<Rightarrow> driver \<Rightarrow> driver" where
  "epd_w21_write_cmd cmd s =
     (if spi_fd s < 0 then s
      else let s1 = spi_delay s;
               s2 = gpio_write DC_PIN 0 s1;
               (r, s3) = syscall (Spi_transfer (spi_fd s2) cmd) s2
           in if r < 0 then print Err_spi_command_transfer s3 else s3)"

definition epd_w21_write_data :: "byte \<Rightarrow> driver \<Rightarrow> driver" where
  "epd_w21_write_data data s =
     (if spi_fd s < 0 then s
      else let s1 = spi_delay s;
               s2 = gpio_write DC_PIN 1 s1;
               (r, s3) = syscall (Spi_transfer (spi_fd s2) data) s2
           in if r < 0 then print Err_spi_data_transfer s3 else s3)"

definition epd_init_hardware :: "driver \<Rightarrow> driver" where
  "epd_init_hardware =
     run [gpio_write RST_PIN 0,
          delay_ms 10,
          gpio_write RST_PIN 1,
          delay_ms 10,
          lcd_chkstatus,
          epd_w21_write_cmd 0x12,
          lcd_chkstatus,
          epd_w21_write_cmd 0x01,
          epd_w21_write_data (of_nat ((EPD_HEIGHT - 1) mod 256)),
          epd_w21_write_data (of_nat ((EPD_HEIGHT - 1) div 256)),
          epd_w21_write_data 0x00,
          epd_w21_write_cmd 0x11,
          epd_w21_write_data 0x01,
          epd_w21_write_cmd 0x44,
          epd_w21_write_data 0x00,
          epd_w21_write_data (of_nat (EPD_WIDTH div 8 - 1)),
          epd_w21_write_cmd 0x45,
          epd_w21_write_data (of_nat ((EPD_HEIGHT - 1) mod 256)),
          epd_w21_write_data (of_nat ((EPD_HEIGHT - 1) div 256)),
          epd_w21_write_data 0x00,
          epd_w21_write_data 0x00,
          epd_w21_write_cmd 0x3C,
          epd_w21_write_data 0x05,
          epd_w21_write_cmd 0x21,
          epd_w21_write_data 0x00,
          epd_w21_write_data 0x80,
          epd_w21_write_cmd 0x18,
          epd_w21_write_data 0x80,
          epd_w21_write_cmd 0x4E,
          epd_w21_write_data 0x00,
          epd_w21_write_cmd 0x4F,
          epd_w21_write_data (of_nat ((EPD_HEIGHT - 1) mod 256)),
          epd_w21_write_data (of_nat ((EPD_HEIGHT - 1) div 256)),
          lcd_chkstatus]"

definition epd_init_partial :: "driver \<Rightarrow> driver" where
  "epd_init_partial = run [epd_w21_write_cmd 0x3C, epd_w21_write_data 0x80]"

definition epd_update :: "driver \<Rightarrow> driver" where
  "epd_update = run [epd_w21_write_cmd 0x22, epd_w21_write_data 0xF7,
                     epd_w21_write_cmd 0x20, lcd_chkstatus]"

definition epd_update_partial :: "driver \<Rightarrow> driver" where
  "epd_update_partial = run [epd_w21_write_cmd 0x22, epd_w21_write_data 0xFF,
                             epd_w21_write_cmd 0x20, lcd_chkstatus]"

subsection \<open>Public API\<close>

definition display_cleanup :: "driver \<Rightarrow> driver" where
  "display_cleanup s =
     (let s1 = (if 0 \<le> spi_fd s
                then (snd (syscall (Close (spi_fd s)) s))\<lparr>spi_fd := - 1\<rparr>
                else s);
          s2 = (if dc_line s1 \<noteq> 0
                then (snd (syscall (Gpiod_line_release (dc_line s1)) s1))\<lparr>dc_line := 0\<rparr>
                else s1);
          s3 = (if rst_line s2 \<noteq> 0
                then (snd (syscall (Gpiod_line_release (rst_line s2)) s2))\<lparr>rst_line := 0\<rparr>
                else s2);
          s4 = (if busy_line s3 \<noteq> 0
                then (snd (syscall (Gpiod_line_release (busy_line s3)) s3))\<lparr>busy_line := 0\<rparr>
                else s3);
          s5 = (if chip s4 \<noteq> 0
                then (snd (syscall (Gpiod_chip_close (chip s4)) s4))\<lparr>chip := 0\<rparr>
                else s4)
      in print Info_cleaned_up (s5\<lparr>initialized := False\<rparr>))"

text \<open>
  The three configuration ioctls of \<open>display_init\<close>, joined by \<open>||\<close>: the first one
  that fails ends the evaluation. The flag returned says whether one failed.
\<close>

definition configure_spi :: "driver \<Rightarrow> bool \<times> driver" where
  "configure_spi s =
     (let (r1, s1) = syscall (Ioctl_wr_mode (spi_fd s)) s
      in if r1 < 0 then (True, s1)
         else let (r2, s2) = syscall (Ioctl_wr_bits_per_word (spi_fd s1)) s1
              in if r2 < 0 then (True, s2)
                 else let (r3, s3) = syscall (Ioctl_wr_max_speed_hz (spi_fd s2)) s2
                      in (r3 < 0, s3))"

text \<open>The three line requests of \<open>display_init\<close>, joined by \<open>||\<close> in the same way.\<close>

definition request_lines :: "driver \<Rightarrow> bool \<times> driver" where
  "request_lines s =
     (let (r1, s1) = syscall (Gpiod_line_request_output (dc_line s) 0) s
      in if r1 < 0 then (True, s1)
         else let (r2, s2) = syscall (Gpiod_line_request_output (rst_line s1) 1) s1
              in if r2 < 0 then (True, s2)
                 else let (r3, s3) = syscall (Gpiod_line_request_input (busy_line s2)) s2
                      in (r3 < 0, s3))"

definition display_init :: "driver \<Rightarrow> bool \<times> driver" where
  "display_init s =
     (if initialized s then (True, s)
      else
        let (fd, s1) = syscall Open_spidev s;
            s2 = s1\<lparr>spi_fd := fd\<rparr>
        in if spi_fd s2 < 0 then (False, print Err_opening_spi s2)
           else
             let (failed, s3) = configure_spi s2
             in if failed
                then (False, (snd (syscall (Close (spi_fd s3))
                                     (print Err_configuring_spi s3)))\<lparr>spi_fd := - 1\<rparr>)
                else
                  let (c, s4) = syscall Gpiod_chip_open_by_name s3;
                      s5 = s4\<lparr>chip := c\<rparr>
                  in if chip s5 = 0
                     then (False, (snd (syscall (Close (spi_fd s5))
                                          (print Err_opening_gpio_chip s5)))\<lparr>spi_fd := - 1\<rparr>)
                     else
                       let (dc, s6) = syscall (Gpiod_chip_get_line (chip s5) DC_PIN) s5;
                           s7 = s6\<lparr>dc_line := dc\<rparr>;
                           (rst, s8) = syscall (Gpiod_chip_get_line (chip s7) RST_PIN) s7;
                           s9 = s8\<lparr>rst_line := rst\<rparr>;
                           (busy, s10) = syscall (Gpiod_chip_get_line (chip s9) BUSY_PIN) s9;
                           s11 = s10\<lparr>busy_line := busy\<rparr>
                       in if dc_line s11 = 0 \<or> rst_line s11 = 0 \<or> busy_line s11 = 0
                          then (False, display_cleanup (print Err_get_gpio_lines s11))
                          else
                            let (failed, s12) = request_lines s11
                            in if failed
                               then (False, display_cleanup (print Err_configure_gpio_lines s12))
                               else (True, print Info_initialized
                                             ((epd_init_hardware s12)\<lparr>initialized := True\<rparr>)))"

text \<open>
  The loop of \<open>display_image_raw\<close> that sends the frame, entered at index \<open>i\<close>. The
  frame is the array \<open>data\<close> points to; reading past its end is undefined behaviour
  in C and \<open>None\<close> here.
\<close>

function send_frame :: "byte list \<Rightarrow> nat \<Rightarrow> driver \<Rightarrow> driver option" where
  "send_frame data i s =
     (if i < EPD_ARRAY
      then (if i < length data
            then send_frame data (Suc i) (epd_w21_write_data (data ! i) s)
            else None)
      else Some s)"
  by pat_completeness auto
termination
  by (relation "measure (\<lambda>(data, i, s). EPD_ARRAY - i)") auto

declare send_frame.simps [simp del]

definition display_image_raw :: "byte list option \<Rightarrow> display_mode_t \<Rightarrow> driver
                                   \<Rightarrow> (bool \<times> driver) option" where
  "display_image_raw data mode s =
     (if \<not> initialized s \<or> data = None
      then Some (False, print Err_not_initialized_or_invalid_data s)
      else
        let s1 = (if mode = DISPLAY_MODE_PARTIAL then epd_init_partial s else s);
            s2 = epd_w21_write_cmd 0x24 s1
        in case send_frame (the data) 0 s2 of
             None \<Rightarrow> None
           | Some s3 \<Rightarrow>
               Some (True, if mode = DISPLAY_MODE_FULL then epd_update s3
                           else epd_update_partial s3))"

text \<open>
  \<open>display_image_png\<close>. The local array \<open>image_data\<close> starts with indeterminate
  contents, taken as zeros here: the codec either leaves it alone and fails, or
  overwrites all of it.
\<close>

definition display_image_png :: "(string \<Rightarrow> decoded) \<Rightarrow> string option \<Rightarrow> display_mode_t
                                   \<Rightarrow> driver \<Rightarrow> (bool \<times> driver) option" where
  "display_image_png lodepng_decode32_file filename mode s =
     (if \<not> initialized s \<or> filename = None
      then Some (False, print Err_not_initialized_or_invalid_filename s)
      else
        case convert_png_to_1bit lodepng_decode32_file filename (Some (replicate EPD_ARRAY 0)) of
          None \<Rightarrow> None
        | Some (ok, image_data, printed) \<Rightarrow>
            let s1 = s\<lparr>console := console s @ printed\<rparr>
            in if \<not> ok then Some (False, print Err_convert_png s1)
               else display_image_raw image_data mode s1)"

definition display_clear :: "driver \<Rightarrow> (bool \<times> driver) option" where
  "display_clear s =
     (if \<not> initialized s then Some (False, print Err_not_initialized s)
      else
        case memset (replicate EPD_ARRAY 0) 0xFF EPD_ARRAY of
          None \<Rightarrow> None
        | Some white_data \<Rightarrow> display_image_raw (Some white_data) DISPLAY_MODE_FULL s)"

definition display_sleep :: "driver \<Rightarrow> driver" where
  "display_sleep s =
     (if \<not> initialized s then s
      else run [epd_w21_write_cmd 0x10, epd_w21_write_data 0x01, delay_ms 100] s)"

text \<open>
  \<open>display_get_dimensions(width, height)\<close>. The two arguments are addresses of
  \<open>uint32_t\<close> objects (\<open>None\<close> for \<open>NULL\<close>) in a memory of such objects; the function
  is handed the memory and the driver and returns both.
\<close>

definition display_get_dimensions ::
  "nat option \<Rightarrow> nat option \<Rightarrow> (nat \<Rightarrow> 32 word) \<times> driver \<Rightarrow> (nat \<Rightarrow> 32 word) \<times> driver" where
  "display_get_dimensions width height w =
     (let (mem, s) = w;
          mem1 = (case width of None \<Rightarrow> mem | Some a \<Rightarrow> mem(a := of_nat EPD_WIDTH));
          mem2 = (case height of None \<Rightarrow> mem1 | Some a \<Rightarrow> mem1(a := of_nat EPD_HEIGHT))
      in (mem2, s))"

subsection \<open>Descriptions used in the statements\<close>

text \<open>A handle is Ready when initialization has completed: the flag is set and every resource is held.\<close>

definition ready :: "driver \<Rightarrow> bool" where
  "ready s \<longleftrightarrow> initialized s \<and> 0 \<le> spi_fd s \<and> chip s \<noteq> 0 \<and> dc_line s \<noteq> 0
                 \<and> rst_line s \<noteq> 0 \<and> busy_line s \<noteq> 0"

text \<open>The calls that send one command byte, and one data byte, on a Ready handle.\<close>

definition cmd_calls :: "driver \<Rightarrow> byte \<Rightarrow> call list" where
  "cmd_calls s c = [Usleep 10, Gpiod_line_set_value (dc_line s) 0, Spi_transfer (spi_fd s) c]"

definition data_calls :: "driver \<Rightarrow> byte \<Rightarrow> call list" where
  "data_calls s b = [Usleep 10, Gpiod_line_set_value (dc_line s) 1, Spi_transfer (spi_fd s) b]"

text \<open>The calls of a busy-wait that sleeps \<open>n\<close> times: \<open>n\<close> reads each followed by a 10 ms sleep, and the read that ends the loop.\<close>

definition busy_polls :: "driver \<Rightarrow> nat \<Rightarrow> call list" where
  "busy_polls s n =
     concat (replicate n [Gpiod_line_get_value (busy_line s), Usleep 10000])
     @ [Gpiod_line_get_value (busy_line s)]"

text \<open>What the driver's own variables hold.\<close>

definition handles :: "driver \<Rightarrow> int \<times> ptr \<times> ptr \<times> ptr \<times> ptr \<times> bool" where
  "handles s = (spi_fd s, chip s, dc_line s, rst_line s, busy_line s, initialized s)"

text \<open>
  \<open>emits s cs s'\<close>: from \<open>s\<close> to \<open>s'\<close> the driver made exactly the calls \<open>cs\<close>, in
  this order, and its variables and the operating system's answers are as before.
\<close>

definition emits :: "driver \<Rightarrow> call list \<Rightarrow> driver \<Rightarrow> bool" where
  "emits s cs s' \<longleftrightarrow> calls s' = calls s @ cs \<and> handles s' = handles s \<and> answer s' = answer s"

text \<open>
  What \<open>gpio_read(BUSY_PIN)\<close> returns at poll number \<open>k\<close> (from 0) of a busy-wait
  entered in state \<open>s\<close>: \<open>-1\<close> without a busy line, and otherwise the answer to the
  call made after the \<open>k\<close> reads and \<open>k\<close> sleeps before it.
\<close>

definition busy_sample :: "driver \<Rightarrow> nat \<Rightarrow> int" where
  "busy_sample s k = (if busy_line s = 0 then - 1 else answer s (length (calls s) + 2 * k))"

section \<open>Properties of the image codec\<close>

lemma bit_or_one_shift:
  "m < 8 \<Longrightarrow> bit ((w::byte) OR push_bit m 1) j \<longleftrightarrow> bit w j \<or> j = m"
  by (auto simp add: bit_or_iff bit_push_bit_iff bit_1_iff bit_exp_iff dest: bit_imp_le_length)

lemma gray_byte:
  "unat (of_nat ((unat (r::byte) + unat (g::byte) + unat (b::byte)) div 3) :: byte)
     = (unat r + unat g + unat b) div 3"
proof -
  have "unat r < 256" "unat g < 256" "unat b < 256"
    using unsigned_less [of r] unsigned_less [of g] unsigned_less [of b] by simp_all
  then have "(unat r + unat g + unat b) div 3 < 256" by arith
  then show ?thesis by (simp add: unat_of_nat)
qed

lemma gray_gt:
  "(128 < (of_nat ((unat (r::byte) + unat (g::byte) + unat (b::byte)) div 3) :: byte))
     \<longleftrightarrow> 128 < (unat r + unat g + unat b) div 3"
  using gray_byte [of r g b] by (simp add: word_less_nat_alt)

lemma pack_pixel_eq:
  assumes idx: "y * width + x = p" and p: "p < 32000"
    and img: "length img = 128000" and out: "4000 \<le> length out"
  shows "pack_pixel img width y x out =
           Some (if classified_white img p
                 then out[p div 8 := (out ! (p div 8)) OR push_bit (7 - p mod 8) 1]
                 else out)"
proof -
  have u1: "u32 (y * width + x) = p" using idx p by (simp add: u32_def)
  have u2: "u32 (p * 4) = 4 * p" using p by (simp add: u32_def)
  have b: "p div 8 < length out" using p out by arith
  have r: "\<not> length img \<le> 4 * p + 2" using p img by arith
  show ?thesis
    unfolding pack_pixel_def Let_def u1 u2
    using b r by (simp add: gray_gt classified_white_def)
qed

lemma same_slot: "q div 8 = n div 8 \<Longrightarrow> 7 - q mod 8 = 7 - n mod 8 \<Longrightarrow> q = (n::nat)"
proof -
  assume a: "q div 8 = n div 8" and b: "7 - q mod 8 = 7 - n mod 8"
  have "q mod 8 < 8" "n mod 8 < 8" by simp_all
  with b have "q mod 8 = n mod 8" by linarith
  with a show ?thesis by (metis div_mult_mod_eq)
qed

lemma frame_inv_step:
  assumes inv: "frame_inv img buf n out" and n: "n < 32000" and buf: "4000 \<le> length buf"
  shows "frame_inv img buf (Suc n)
           (if classified_white img n
            then out[n div 8 := (out ! (n div 8)) OR push_bit (7 - n mod 8) 1]
            else out)"
proof (cases "classified_white img n")
  case False
  have "\<And>q. q < Suc n \<and> classified_white img q \<longleftrightarrow> q < n \<and> classified_white img q"
    using False less_Suc_eq by auto
  with inv False show ?thesis by (simp add: frame_inv_def)
next
  case True
  let ?out = "out[n div 8 := (out ! (n div 8)) OR push_bit (7 - n mod 8) 1]"
  have len: "length out = length buf" using inv by (simp add: frame_inv_def)
  have k: "n div 8 < length out" using n buf len by arith
  have k4: "n div 8 < 4000" using n by arith
  have d: "drop 4000 ?out = drop 4000 buf"
    using inv k4 by (simp add: frame_inv_def)
  have bits: "bit (?out ! (q div 8)) (7 - q mod 8) \<longleftrightarrow> q < Suc n \<and> classified_white img q"
    if q: "q < 32000" for q
  proof (cases "q div 8 = n div 8")
    case False
    then have "q \<noteq> n" by auto
    moreover have "?out ! (q div 8) = out ! (q div 8)" using False by simp
    moreover have "bit (out ! (q div 8)) (7 - q mod 8) \<longleftrightarrow> q < n \<and> classified_white img q"
      using inv q by (simp add: frame_inv_def)
    ultimately show ?thesis using less_Suc_eq by auto
  next
    case same: True
    have m: "7 - n mod 8 < 8" by arith
    have "?out ! (q div 8) = (out ! (n div 8)) OR push_bit (7 - n mod 8) 1"
      using same k by simp
    then have "bit (?out ! (q div 8)) (7 - q mod 8)
                 \<longleftrightarrow> bit (out ! (q div 8)) (7 - q mod 8) \<or> 7 - q mod 8 = 7 - n mod 8"
      using bit_or_one_shift [OF m] same by simp
    moreover have "bit (out ! (q div 8)) (7 - q mod 8) \<longleftrightarrow> q < n \<and> classified_white img q"
      using inv q by (simp add: frame_inv_def)
    moreover have "7 - q mod 8 = 7 - n mod 8 \<longleftrightarrow> q = n"
      using same same_slot by blast
    ultimately show ?thesis using True less_Suc_eq by auto
  qed
  show ?thesis using True len d bits by (simp add: frame_inv_def)
qed

lemma convert_cols_inv:
  assumes img: "length img = 128000" and buf: "4000 \<le> length buf"
    and row: "Suc y * w \<le> 32000"
  shows "x \<le> w \<Longrightarrow> frame_inv img buf (y * w + x) out \<Longrightarrow>
         \<exists>out'. convert_cols img w y x out = Some out' \<and> frame_inv img buf (y * w + w) out'"
proof (induction "w - x" arbitrary: x out)
  case 0
  then have "x = w" by simp
  with 0 show ?case by (subst convert_cols.simps) simp
next
  case (Suc k)
  then have x: "x < w" by simp
  define p where "p = y * w + x"
  have p: "p < 32000" using x row by (simp add: p_def)
  have len: "4000 \<le> length out" using Suc.prems(2) buf by (simp add: frame_inv_def)
  define out1 where "out1 = (if classified_white img p
                 then out[p div 8 := (out ! (p div 8)) OR push_bit (7 - p mod 8) 1]
                 else out)"
  have pk: "pack_pixel img w y x out = Some out1"
    unfolding out1_def using pack_pixel_eq [OF p_def [symmetric] p img len] .
  have "frame_inv img buf (Suc p) out1"
    unfolding out1_def using frame_inv_step [OF _ p buf] Suc.prems(2) by (simp add: p_def)
  then have inv1: "frame_inv img buf (y * w + Suc x) out1" by (simp add: p_def)
  have "k = w - Suc x" using Suc.hyps(2) by simp
  from Suc.hyps(1) [OF this _ inv1] x
  obtain out' where "convert_cols img w y (Suc x) out1 = Some out'"
    and "frame_inv img buf (y * w + w) out'" by auto
  then show ?case using x pk by (subst convert_cols.simps) simp
qed

lemma convert_rows_inv:
  assumes img: "length img = 128000" and buf: "4000 \<le> length buf"
    and size: "h * w = 32000"
  shows "y \<le> h \<Longrightarrow> frame_inv img buf (y * w) out \<Longrightarrow>
         \<exists>out'. convert_rows img w h y out = Some out' \<and> frame_inv img buf 32000 out'"
proof (induction "h - y" arbitrary: y out)
  case 0
  then have "y = h" by simp
  with 0 size show ?case by (subst convert_rows.simps) simp
next
  case (Suc k)
  then have y: "y < h" by simp
  then have "Suc y * w \<le> h * w" by (intro mult_le_mono1) simp
  then have row: "Suc y * w \<le> 32000" using size by simp
  have "frame_inv img buf (y * w + 0) out" using Suc.prems(2) by simp
  from convert_cols_inv [OF img buf row _ this]
  obtain out1 where c: "convert_cols img w y 0 out = Some out1"
    and "frame_inv img buf (y * w + w) out1" by auto
  then have inv1: "frame_inv img buf (Suc y * w) out1" by (simp add: add.commute)
  have "k = h - Suc y" using Suc.hyps(2) by simp
  from Suc.hyps(1) [OF this _ inv1] y
  obtain out' where "convert_rows img w h (Suc y) out1 = Some out'"
    and "frame_inv img buf 32000 out'" by auto
  then show ?case using y c by (subst convert_rows.simps) simp
qed

lemma frame_inv_start:
  assumes "4000 \<le> length buf"
  shows "frame_inv img buf 0 (replicate 4000 0 @ drop 4000 buf)"
proof -
  have "\<not> bit ((replicate 4000 (0::byte) @ drop 4000 buf) ! (q div 8)) (7 - q mod 8)"
    if "q < 32000" for q
  proof -
    have "q div 8 < 4000" using that by arith
    then show ?thesis by (simp add: nth_append)
  qed
  then show ?thesis using assms by (simp add: frame_inv_def)
qed

lemma convert_png_frame:
  assumes err: "png_error (dec name) = 0"
    and w: "png_width (dec name) = 128" and h: "png_height (dec name) = 250"
    and img: "length (png_image (dec name)) = 128000"
    and buf: "4000 \<le> length buf"
  shows "\<exists>out. convert_png_to_1bit dec (Some name) (Some buf) = Some (True, Some out, [])
           \<and> length out = length buf \<and> drop 4000 out = drop 4000 buf
           \<and> (\<forall>q<32000. bit (out ! (q div 8)) (7 - q mod 8)
                  \<longleftrightarrow> classified_white (png_image (dec name)) q)"
proof -
  let ?buf0 = "replicate 4000 0 @ drop 4000 buf"
  have m: "memset buf 0 EPD_ARRAY = Some ?buf0"
    using buf by (simp add: memset_def EPD_ARRAY_def EPD_WIDTH_def EPD_HEIGHT_def)
  have len0: "length ?buf0 = length buf" using buf by simp
  have "frame_inv (png_image (dec name)) buf (0 * 128) ?buf0"
    using frame_inv_start [OF buf] by simp
  from convert_rows_inv [OF img buf _ _ this, of 250]
  obtain out where c: "convert_rows (png_image (dec name)) 128 250 0 ?buf0 = Some out"
    and inv: "frame_inv (png_image (dec name)) buf 32000 out" by auto
  have "convert_png_to_1bit dec (Some name) (Some buf) = Some (True, Some out, [])"
    using err w h m c by (simp add: convert_png_to_1bit_def EPD_WIDTH_def EPD_HEIGHT_def)
  then show ?thesis using inv by (auto simp add: frame_inv_def)
qed

lemma frame_slot:
  assumes "i < 8"
  shows "(8 * k + (7 - i)) div 8 = k \<and> 7 - (8 * k + (7 - i)) mod 8 = (i::nat)"
proof -
  define j where "j = 7 - i"
  have j: "j < 8" and i: "7 - j = i" using assms by (simp_all add: j_def)
  have "(8 * k + j) div 8 = k" "(8 * k + j) mod 8 = j" using j by simp_all
  then show ?thesis using i by (simp add: j_def)
qed

lemma frame_bits_eq:
  assumes la: "length a = 4000" and lb: "length b = 4000"
    and bits: "\<And>q. q < 32000 \<Longrightarrow>
                 bit ((a::byte list) ! (q div 8)) (7 - q mod 8) = bit (b ! (q div 8)) (7 - q mod 8)"
  shows "a = b"
proof (rule nth_equalityI)
  show "length a = length b" using la lb by simp
next
  fix k assume "k < length a"
  then have k: "k < 4000" using la by simp
  show "a ! k = b ! k"
  proof (rule bit_word_eqI)
    fix i assume "i < LENGTH(8)"
    then have i: "i < 8" by simp
    have q: "8 * k + (7 - i) < 32000" using k i by arith
    show "bit (a ! k) i = bit (b ! k) i"
      using bits [OF q] frame_slot [OF i, of k] by simp
  qed
qed

lemma bit_0x80: "bit (0x80 :: byte) j \<longleftrightarrow> j = 7"
proof -
  have "(0x80 :: byte) = 2 ^ 7" by simp
  then show ?thesis by (simp only: bit_exp_iff) auto
qed

lemma origin_frame_bits:
  assumes "q < 32000"
  shows "bit ((0x80 # replicate 3999 (0::byte)) ! (q div 8)) (7 - q mod 8) \<longleftrightarrow> q = 0"
proof (cases "q div 8 = 0")
  case True
  then have "q < 8" by arith
  then have "7 - q mod 8 = 7 \<longleftrightarrow> q = 0" by auto
  moreover have "(0x80 # replicate 3999 (0::byte)) ! (q div 8) = 0x80" using True by simp
  ultimately show ?thesis using bit_0x80 [of "7 - q mod 8"] by simp
next
  case False
  then have "q \<noteq> 0" by auto
  moreover have "q div 8 - 1 < 3999" using assms False by arith
  ultimately show ?thesis using False by (simp add: nth_Cons')
qed

lemma origin_only_classified:
  assumes "white_at_origin_only img" and "q < 32000"
  shows "classified_white img q \<longleftrightarrow> q = 0"
proof (cases "q = 0")
  case True
  with assms(1) show ?thesis by (simp add: white_at_origin_only_def classified_white_def)
next
  case False
  then have "q \<in> {1..<32000}" using assms(2) by simp
  with assms(1) have "img ! (4 * q) = 0 \<and> img ! (4 * q + 1) = 0 \<and> img ! (4 * q + 2) = 0"
    unfolding white_at_origin_only_def by blast
  with False show ?thesis by (simp add: classified_white_def)
qed

lemma panel_consts: "EPD_WIDTH = 128" "EPD_HEIGHT = 250" "EPD_ARRAY = 4000"
  by (simp_all add: EPD_ARRAY_def EPD_WIDTH_def EPD_HEIGHT_def)

lemma pixel_index_bound: "y < 250 \<Longrightarrow> x < 128 \<Longrightarrow> y * 128 + x < (32000::nat)"
  by arith

text \<open>
  Claim C1. For every decoded RGBA image of exactly 128 by 250 pixels (decoder error 0,
  four samples per pixel) and every output buffer of at least \<open>EPD_ARRAY\<close> = 4000
  bytes, \<open>convert_png_to_1bit\<close> returns true, prints nothing, leaves the buffer's
  length and every byte beyond the first 4000 as they were, and packs the classification
  bits row-major and MSB-first: the bit of pixel \<open>(x, y)\<close> is bit
  \<open>7 - (128 y + x) mod 8\<close> of byte \<open>(128 y + x) div 8\<close>. When only pixel
  \<open>(0, 0)\<close> is white and all others are black, the first byte is \<open>0x80\<close> and the
  other 3999 bytes are \<open>0x00\<close>.
\<close>

theorem convert_png_to_1bit_packs_frame:
  assumes "png_error (dec name) = 0"
    and "png_width (dec name) = EPD_WIDTH" and "png_height (dec name) = EPD_HEIGHT"
    and "length (png_image (dec name)) = 4 * EPD_WIDTH * EPD_HEIGHT"
    and "EPD_ARRAY \<le> length buf"
  shows "EPD_ARRAY = 4000 \<and>
         (\<exists>out. convert_png_to_1bit dec (Some name) (Some buf) = Some (True, Some out, [])
            \<and> length out = length buf
            \<and> drop EPD_ARRAY out = drop EPD_ARRAY buf
            \<and> (\<forall>y<EPD_HEIGHT. \<forall>x<EPD_WIDTH.
                  bit (out ! ((y * EPD_WIDTH + x) div 8)) (7 - (y * EPD_WIDTH + x) mod 8)
                    \<longleftrightarrow> classified_white (png_image (dec name)) (y * EPD_WIDTH + x))
            \<and> (white_at_origin_only (png_image (dec name))
                  \<longrightarrow> take EPD_ARRAY out = 0x80 # replicate 3999 0x00))"
proof -
  let ?img = "png_image (dec name)"
  have hyps: "png_width (dec name) = 128" "png_height (dec name) = 250"
    "length ?img = 128000" "4000 \<le> length buf"
    using assms by (simp_all add: panel_consts)
  from convert_png_frame [of dec name buf, OF assms(1) hyps]
  obtain out where conv: "convert_png_to_1bit dec (Some name) (Some buf) = Some (True, Some out, [])"
    and len: "length out = length buf" and rest: "drop 4000 out = drop 4000 buf"
    and bits: "\<And>q. q < 32000 \<Longrightarrow>
                 bit (out ! (q div 8)) (7 - q mod 8) \<longleftrightarrow> classified_white ?img q"
    by blast
  have px: "bit (out ! ((y * 128 + x) div 8)) (7 - (y * 128 + x) mod 8)
              \<longleftrightarrow> classified_white ?img (y * 128 + x)"
    if "y < 250" "x < 128" for y x
    using bits [OF pixel_index_bound [OF that]] .
  have origin: "take 4000 out = 0x80 # replicate 3999 0x00" if o: "white_at_origin_only ?img"
  proof (rule frame_bits_eq)
    show "length (take 4000 out) = 4000" using len hyps(4) by simp
    show "length (0x80 # replicate 3999 (0x00::byte)) = 4000" by simp
  next
    fix q :: nat assume q: "q < 32000"
    then have "q div 8 < 4000" by arith
    then have "take 4000 out ! (q div 8) = out ! (q div 8)" by simp
    then show "bit (take 4000 out ! (q div 8)) (7 - q mod 8)
                 = bit ((0x80 # replicate 3999 (0x00::byte)) ! (q div 8)) (7 - q mod 8)"
      using bits [OF q] origin_only_classified [OF o q] origin_frame_bits [OF q] by simp
  qed
  show ?thesis
    using conv len rest px origin by (simp add: panel_consts)
qed

text \<open>
  The image with one white pixel at the origin, converted into a buffer that held
  \<open>0xAA\<close> everywhere.
\<close>

theorem convert_png_to_1bit_packs_frame_witness:
  "white_at_origin_only ([255, 255, 255, 255] @ replicate 127996 0) \<and>
   convert_png_to_1bit
      (\<lambda>name. \<lparr>png_error = 0, png_width = 128, png_height = 250,
                png_image = [255, 255, 255, 255] @ replicate 127996 0\<rparr>)
      (Some ''frame.png'') (Some (replicate 4000 0xAA))
     = Some (True, Some (0x80 # replicate 3999 0x00), [])"
proof -
  let ?img = "[255, 255, 255, 255] @ replicate 127996 (0::byte)"
  let ?dec = "\<lambda>name::string. \<lparr>png_error = 0, png_width = 128, png_height = 250, png_image = ?img\<rparr>"
  have black: "?img ! n = 0" if "4 \<le> n" "n < 128000" for n
    using that by (simp add: nth_append)
  have "?img ! (4 * p) = 0 \<and> ?img ! (4 * p + 1) = 0 \<and> ?img ! (4 * p + 2) = 0"
    if "p \<in> {1..<32000}" for p
    using that by (intro conjI black) simp_all
  then have o: "white_at_origin_only ?img"
    unfolding white_at_origin_only_def by simp
  have "\<exists>out. convert_png_to_1bit ?dec (Some ''frame.png'') (Some (replicate 4000 0xAA))
                 = Some (True, Some out, [])
             \<and> length out = 4000 \<and> take 4000 out = 0x80 # replicate 3999 0x00"
    using convert_png_to_1bit_packs_frame [of ?dec "''frame.png''" "replicate 4000 0xAA"] o
    by (simp add: panel_consts) blast
  then show ?thesis using o by auto
qed

text \<open>
  Claim C2, as the code has it. For every pixel \<open>(x, y)\<close> of a valid 128 by 250
  image, the output bit of the pixel is 1 if and only if the truncated integer mean
  \<open>(r + g + b) div 3\<close> of its red, green and blue samples (alpha ignored) strictly
  exceeds 128, that is, if and only if \<open>r + g + b \<ge> 387\<close>. A pixel whose truncated
  mean is exactly 128 (a sum of 384, 385 or 386) is black.
\<close>

theorem convert_png_to_1bit_threshold:
  assumes "png_error (dec name) = 0"
    and "png_width (dec name) = EPD_WIDTH" and "png_height (dec name) = EPD_HEIGHT"
    and "length (png_image (dec name)) = 4 * EPD_WIDTH * EPD_HEIGHT"
    and "EPD_ARRAY \<le> length buf"
    and "y < EPD_HEIGHT" and "x < EPD_WIDTH" and "p = y * EPD_WIDTH + x"
    and "r = unat (png_image (dec name) ! (4 * p))"
    and "g = unat (png_image (dec name) ! (4 * p + 1))"
    and "b = unat (png_image (dec name) ! (4 * p + 2))"
  shows "\<exists>out. convert_png_to_1bit dec (Some name) (Some buf) = Some (True, Some out, [])
           \<and> (bit (out ! (p div 8)) (7 - p mod 8) \<longleftrightarrow> 128 < (r + g + b) div 3)
           \<and> (bit (out ! (p div 8)) (7 - p mod 8) \<longleftrightarrow> 387 \<le> r + g + b)"
proof -
  let ?img = "png_image (dec name)"
  have hyps: "png_width (dec name) = 128" "png_height (dec name) = 250"
    "length ?img = 128000" "4000 \<le> length buf"
    using assms by (simp_all add: panel_consts)
  from convert_png_frame [of dec name buf, OF assms(1) hyps]
  obtain out where conv: "convert_png_to_1bit dec (Some name) (Some buf) = Some (True, Some out, [])"
    and bits: "\<And>q. q < 32000 \<Longrightarrow>
                 bit (out ! (q div 8)) (7 - q mod 8) \<longleftrightarrow> classified_white ?img q"
    by blast
  have "y < 250" "x < 128" "p = y * 128 + x" using assms by (simp_all add: panel_consts)
  then have "p < 32000" using pixel_index_bound by simp
  then have "bit (out ! (p div 8)) (7 - p mod 8) \<longleftrightarrow> 128 < (r + g + b) div 3"
    using bits assms(9-11) by (simp add: classified_white_def)
  moreover have "128 < (r + g + b) div 3 \<longleftrightarrow> 387 \<le> r + g + b" by arith
  ultimately show ?thesis using conv by simp
qed

text \<open>
  A uniformly light image (every sample 200) at pixel \<open>(5, 3)\<close>, number 389.
\<close>

theorem convert_png_to_1bit_threshold_witness:
  "\<exists>out. convert_png_to_1bit
            (\<lambda>name. \<lparr>png_error = 0, png_width = 128, png_height = 250,
                      png_image = replicate 128000 200\<rparr>)
            (Some ''grey.png'') (Some (replicate 4000 0)) = Some (True, Some out, [])
         \<and> bit (out ! (389 div 8)) (7 - 389 mod 8)"
proof -
  let ?img = "replicate 128000 (200::byte)"
  let ?dec = "\<lambda>name::string. \<lparr>png_error = 0, png_width = 128, png_height = 250, png_image = ?img\<rparr>"
  have px: "(200::nat) = unat (png_image (?dec ''grey.png'') ! (4 * 389))"
    "(200::nat) = unat (png_image (?dec ''grey.png'') ! (4 * 389 + 1))"
    "(200::nat) = unat (png_image (?dec ''grey.png'') ! (4 * 389 + 2))"
    by simp_all
  have "\<exists>out. convert_png_to_1bit ?dec (Some ''grey.png'') (Some (replicate 4000 0))
                 = Some (True, Some out, [])
           \<and> (bit (out ! (389 div 8)) (7 - 389 mod 8) \<longleftrightarrow> 128 < ((200::nat) + 200 + 200) div 3)
           \<and> (bit (out ! (389 div 8)) (7 - 389 mod 8) \<longleftrightarrow> 387 \<le> (200::nat) + 200 + 200)"
    by (rule convert_png_to_1bit_threshold [of ?dec "''grey.png''" "replicate 4000 0" 3 5 389, OF _ _ _ _ _ _ _ _ px])
      (simp_all add: panel_consts)
  then obtain out where
    "convert_png_to_1bit ?dec (Some ''grey.png'') (Some (replicate 4000 0)) = Some (True, Some out, [])"
    "bit (out ! (389 div 8)) (7 - 389 mod 8) \<longleftrightarrow> 387 \<le> (200::nat) + 200 + 200"
    by blast
  then show ?thesis by simp
qed

text \<open>
  Claim C2 as stated, with the luminance read as the exact unweighted mean, fails: the
  pixel (129, 129, 128) has mean 128.67 > 128, yet the codec computes 386 div 3 = 128
  and leaves its bit at 0. Here it is pixel \<open>(0, 0)\<close> of an otherwise black image,
  and the whole frame comes out zero.
\<close>

theorem mean_threshold_counterexample:
  "luminance_exceeds_threshold 129 129 128 \<and>
   convert_png_to_1bit
      (\<lambda>name. \<lparr>png_error = 0, png_width = 128, png_height = 250,
                png_image = [129, 129, 128, 255] @ replicate 127996 0\<rparr>)
      (Some ''edge.png'') (Some (replicate 4000 0xFF))
     = Some (True, Some (replicate 4000 0x00), []) \<and>
   \<not> bit ((replicate 4000 (0x00::byte)) ! 0) 7"
proof -
  let ?img = "[129, 129, 128, 255] @ replicate 127996 (0::byte)"
  let ?dec = "\<lambda>name::string. \<lparr>png_error = 0, png_width = 128, png_height = 250, png_image = ?img\<rparr>"
  have zero: "?img ! n = 0" if "4 \<le> n" "n < 128000" for n
    using that by (simp add: nth_append)
  have black: "\<not> classified_white ?img q" if q: "q < 32000" for q
  proof (cases "q = 0")
    case True
    then show ?thesis by (simp add: classified_white_def)
  next
    case False
    then have "4 \<le> 4 * q" "4 * q + 2 < 128000" using q by simp_all
    then have "?img ! (4 * q) = 0" "?img ! (4 * q + 1) = 0" "?img ! (4 * q + 2) = 0"
      by (simp_all only: zero)
    then show ?thesis unfolding classified_white_def by simp
  qed
  from convert_png_frame [of ?dec "''edge.png''" "replicate 4000 0xFF"]
  obtain out where conv: "convert_png_to_1bit ?dec (Some ''edge.png'') (Some (replicate 4000 0xFF))
                            = Some (True, Some out, [])"
    and len: "length out = 4000"
    and bits: "\<And>q. q < 32000 \<Longrightarrow> bit (out ! (q div 8)) (7 - q mod 8) \<longleftrightarrow> classified_white ?img q"
    by auto
  have "out = replicate 4000 0x00"
  proof (rule frame_bits_eq)
    show "length out = 4000" by (rule len)
    show "length (replicate 4000 (0x00::byte)) = 4000" by simp
  next
    fix q :: nat assume q: "q < 32000"
    then have "q div 8 < 4000" by arith
    then show "bit (out ! (q div 8)) (7 - q mod 8)
                 = bit (replicate 4000 (0x00::byte) ! (q div 8)) (7 - q mod 8)"
      using bits [OF q] black [OF q] by simp
  qed
  with conv show ?thesis by (simp add: luminance_exceeds_threshold_def)
qed

text \<open>
  Claim C4. For every successfully decoded image whose width or height differs from
  128 by 250, \<open>convert_png_to_1bit\<close> returns false, prints the dimension error and
  leaves the caller's output buffer exactly as it was.
\<close>

theorem convert_png_to_1bit_rejects_size:
  assumes "png_error (dec name) = 0"
    and "png_width (dec name) \<noteq> EPD_WIDTH \<or> png_height (dec name) \<noteq> EPD_HEIGHT"
  shows "convert_png_to_1bit dec (Some name) (Some buf)
           = Some (False, Some buf,
                   [Err_png_dimensions (png_width (dec name)) (png_height (dec name)) 128 250])"
  using assms by (auto simp add: convert_png_to_1bit_def panel_consts Let_def)

text \<open>
  A 100 by 100 image and a three-byte buffer: the buffer comes back untouched.
\<close>

theorem convert_png_to_1bit_rejects_size_witness:
  "convert_png_to_1bit
      (\<lambda>name. \<lparr>png_error = 0, png_width = 100, png_height = 100,
                png_image = replicate 40000 0xFF\<rparr>)
      (Some ''small.png'') (Some [1, 2, 3])
     = Some (False, Some [1, 2, 3], [Err_png_dimensions 100 100 128 250])"
  using convert_png_to_1bit_rejects_size
          [of "\<lambda>name. \<lparr>png_error = 0, png_width = 100, png_height = 100,
                          png_image = replicate 40000 0xFF\<rparr>" "''small.png''" "[1, 2, 3]"]
  by (simp add: panel_consts)

section \<open>Properties of the panel driver\<close>

subsection \<open>Calls made by the private functions\<close>

lemma emits_refl: "emits s [] s"
  by (simp add: emits_def)

lemma emits_trans: "emits s a s1 \<Longrightarrow> emits s1 b s2 \<Longrightarrow> emits s (a @ b) s2"
  by (simp add: emits_def)

lemma emits_handles: "emits s cs s' \<Longrightarrow> handles s' = handles s"
  by (simp add: emits_def)

lemma handles_fields:
  "handles s' = handles s \<Longrightarrow>
     spi_fd s' = spi_fd s \<and> chip s' = chip s \<and> dc_line s' = dc_line s \<and>
     rst_line s' = rst_line s \<and> busy_line s' = busy_line s \<and> initialized s' = initialized s"
  by (simp add: handles_def)

lemma handles_ready: "handles s' = handles s \<Longrightarrow> ready s' = ready s"
  by (simp add: handles_def ready_def)

lemma handles_cmd_calls: "handles s' = handles s \<Longrightarrow> cmd_calls s' = cmd_calls s"
  by (rule ext) (simp add: handles_def cmd_calls_def)

lemma handles_data_calls: "handles s' = handles s \<Longrightarrow> data_calls s' = data_calls s"
  by (rule ext) (simp add: handles_def data_calls_def)

lemma handles_busy_polls: "handles s' = handles s \<Longrightarrow> busy_polls s' = busy_polls s"
  by (rule ext) (simp add: handles_def busy_polls_def)

lemma syscall_emits: "emits s [c] (snd (syscall c s))"
  by (simp add: emits_def syscall_def handles_def)

lemma syscall_console: "console (snd (syscall c s)) = console s"
  by (simp add: syscall_def)

lemma syscall_fst: "fst (syscall c s) = answer s (length (calls s))"
  by (simp add: syscall_def)

lemma print_emits: "emits s [] (print m s)"
  by (simp add: emits_def print_def handles_def)

lemma delay_ms_emits: "emits s [Usleep (ms * 1000)] (delay_ms ms s)"
  by (simp add: delay_ms_def syscall_emits)

lemma delay_ms_console: "console (delay_ms ms s) = console s"
  by (simp add: delay_ms_def syscall_console)

lemma spi_delay_emits: "emits s [Usleep 10] (spi_delay s)"
  by (simp add: spi_delay_def syscall_emits)

lemma gpio_write_dc_emits:
  assumes "dc_line s \<noteq> 0"
  shows "emits s [Gpiod_line_set_value (dc_line s) v] (gpio_write DC_PIN v s)"
proof -
  obtain r s1 where sc: "syscall (Gpiod_line_set_value (dc_line s) v) s = (r, s1)"
    by (cases "syscall (Gpiod_line_set_value (dc_line s) v) s")
  then have e: "emits s [Gpiod_line_set_value (dc_line s) v] s1"
    using syscall_emits [of s "Gpiod_line_set_value (dc_line s) v"] by simp
  have "gpio_write DC_PIN v s = (if r < 0 then print (Err_gpio_set DC_PIN v) s1 else s1)"
    using assms sc by (simp add: gpio_write_def)
  then show ?thesis
    using e emits_trans [OF e print_emits] by simp
qed

lemma gpio_write_handles: "handles (gpio_write pin v s) = handles s \<and> answer (gpio_write pin v s) = answer s"
  by (simp add: gpio_write_def Let_def syscall_def print_def handles_def split: prod.splits)

lemma epd_w21_write_cmd_emits:
  assumes fd: "0 \<le> spi_fd s" and dc: "dc_line s \<noteq> 0"
  shows "emits s (cmd_calls s c) (epd_w21_write_cmd c s)"
proof -
  define s1 where "s1 = spi_delay s"
  define s2 where "s2 = gpio_write DC_PIN 0 s1"
  have e1: "emits s [Usleep 10] s1" unfolding s1_def by (rule spi_delay_emits)
  then have h1: "handles s1 = handles s" by (rule emits_handles)
  then have "dc_line s1 \<noteq> 0" using dc handles_fields by metis
  then have "emits s1 [Gpiod_line_set_value (dc_line s1) 0] s2"
    unfolding s2_def by (rule gpio_write_dc_emits)
  then have e2: "emits s1 [Gpiod_line_set_value (dc_line s) 0] s2"
    using h1 handles_fields by metis
  then have h2: "handles s2 = handles s" using h1 emits_handles by metis
  obtain r s3 where sc: "syscall (Spi_transfer (spi_fd s2) c) s2 = (r, s3)"
    by (cases "syscall (Spi_transfer (spi_fd s2) c) s2")
  then have "emits s2 [Spi_transfer (spi_fd s2) c] s3"
    using syscall_emits [of s2 "Spi_transfer (spi_fd s2) c"] by simp
  then have e3: "emits s2 [Spi_transfer (spi_fd s) c] s3"
    using h2 handles_fields by metis
  have e: "emits s (cmd_calls s c) s3"
    using emits_trans [OF emits_trans [OF e1 e2] e3] by (simp add: cmd_calls_def)
  have "epd_w21_write_cmd c s = (if r < 0 then print Err_spi_command_transfer s3 else s3)"
    using fd sc by (simp add: epd_w21_write_cmd_def s1_def [symmetric] s2_def [symmetric])
  then show ?thesis
    using e emits_trans [OF e print_emits] by simp
qed

lemma epd_w21_write_data_emits:
  assumes fd: "0 \<le> spi_fd s" and dc: "dc_line s \<noteq> 0"
  shows "emits s (data_calls s b) (epd_w21_write_data b s)"
proof -
  define s1 where "s1 = spi_delay s"
  define s2 where "s2 = gpio_write DC_PIN 1 s1"
  have e1: "emits s [Usleep 10] s1" unfolding s1_def by (rule spi_delay_emits)
  then have h1: "handles s1 = handles s" by (rule emits_handles)
  then have "dc_line s1 \<noteq> 0" using dc handles_fields by metis
  then have "emits s1 [Gpiod_line_set_value (dc_line s1) 1] s2"
    unfolding s2_def by (rule gpio_write_dc_emits)
  then have e2: "emits s1 [Gpiod_line_set_value (dc_line s) 1] s2"
    using h1 handles_fields by metis
  then have h2: "handles s2 = handles s" using h1 emits_handles by metis
  obtain r s3 where sc: "syscall (Spi_transfer (spi_fd s2) b) s2 = (r, s3)"
    by (cases "syscall (Spi_transfer (spi_fd s2) b) s2")
  then have "emits s2 [Spi_transfer (spi_fd s2) b] s3"
    using syscall_emits [of s2 "Spi_transfer (spi_fd s2) b"] by simp
  then have e3: "emits s2 [Spi_transfer (spi_fd s) b] s3"
    using h2 handles_fields by metis
  have e: "emits s (data_calls s b) s3"
    using emits_trans [OF emits_trans [OF e1 e2] e3] by (simp add: data_calls_def)
  have "epd_w21_write_data b s = (if r < 0 then print Err_spi_data_transfer s3 else s3)"
    using fd sc by (simp add: epd_w21_write_data_def s1_def [symmetric] s2_def [symmetric])
  then show ?thesis
    using e emits_trans [OF e print_emits] by simp
qed

lemma gpio_read_busy:
  "busy_line s \<noteq> 0 \<Longrightarrow>
     gpio_read BUSY_PIN s = (answer s (length (calls s)),
                             snd (syscall (Gpiod_line_get_value (busy_line s)) s))"
  by (simp add: gpio_read_def syscall_def)

lemma gpio_read_null: "busy_line s = 0 \<Longrightarrow> gpio_read BUSY_PIN s = (- 1, s)"
  by (simp add: gpio_read_def)

lemma busy_polls_0: "busy_polls s 0 = [Gpiod_line_get_value (busy_line s)]"
  by (simp add: busy_polls_def)

lemma busy_polls_Suc:
  "busy_polls s (Suc n) = [Gpiod_line_get_value (busy_line s), Usleep 10000] @ busy_polls s n"
  by (simp add: busy_polls_def)

lemma lcd_chkstatus_loop_polls:
  assumes "busy_line s \<noteq> 0" and "wd \<le> 1000"
  shows "\<exists>n s'. lcd_chkstatus_loop wd s = (wd + int n, s') \<and> wd + int n \<le> 1000
            \<and> emits s (busy_polls s n) s' \<and> console s' = console s
            \<and> (\<forall>k<n. answer s (length (calls s) + 2 * k) = 1)
            \<and> (wd + int n < 1000 \<longrightarrow> answer s (length (calls s) + 2 * n) \<noteq> 1)"
  using assms
proof (induction "nat (1000 - wd)" arbitrary: wd s)
  case 0
  then have wd: "\<not> wd < 1000" by simp
  define s1 where "s1 = snd (syscall (Gpiod_line_get_value (busy_line s)) s)"
  have rd: "gpio_read BUSY_PIN s = (answer s (length (calls s)), s1)"
    unfolding s1_def using "0.prems"(1) by (rule gpio_read_busy)
  have e1: "emits s (busy_polls s 0) s1"
    unfolding s1_def busy_polls_0 by (rule syscall_emits)
  have c1: "console s1 = console s" unfolding s1_def by (rule syscall_console)
  have "lcd_chkstatus_loop wd s = (wd + int 0, s1)"
    using rd wd by (subst lcd_chkstatus_loop.simps) simp
  then show ?case using e1 c1 wd "0.prems"(2) by (intro exI [of _ 0] exI [of _ s1]) simp
next
  case (Suc m)
  then have wd: "wd < 1000" by simp
  define s1 where "s1 = snd (syscall (Gpiod_line_get_value (busy_line s)) s)"
  have rd: "gpio_read BUSY_PIN s = (answer s (length (calls s)), s1)"
    unfolding s1_def using Suc.prems(1) by (rule gpio_read_busy)
  have e1: "emits s [Gpiod_line_get_value (busy_line s)] s1"
    unfolding s1_def by (rule syscall_emits)
  have c1: "console s1 = console s" unfolding s1_def by (rule syscall_console)
  show ?case
  proof (cases "answer s (length (calls s)) = 1")
    case False
    have "lcd_chkstatus_loop wd s = (wd + int 0, s1)"
      using rd False by (subst lcd_chkstatus_loop.simps) simp
    then show ?thesis
      using e1 c1 False Suc.prems(2) by (intro exI [of _ 0] exI [of _ s1]) (simp add: busy_polls_0)
  next
    case True
    define s2 where "s2 = delay_ms 10 s1"
    have e2: "emits s [Gpiod_line_get_value (busy_line s), Usleep 10000] s2"
      unfolding s2_def using emits_trans [OF e1 delay_ms_emits [of s1 10]] by simp
    have c2: "console s2 = console s" unfolding s2_def using c1 by (simp add: delay_ms_console)
    have h2: "handles s2 = handles s" using e2 by (rule emits_handles)
    then have b2: "busy_line s2 \<noteq> 0" using Suc.prems(1) handles_fields by metis
    have a2: "answer s2 = answer s" using e2 by (simp add: emits_def)
    have l2: "length (calls s2) = length (calls s) + 2" using e2 by (simp add: emits_def)
    have m: "m = nat (1000 - (wd + 1))" using Suc.hyps(2) by simp
    have wd1: "wd + 1 \<le> 1000" using wd by simp
    from Suc.hyps(1) [OF m b2 wd1]
    obtain n s' where loop: "lcd_chkstatus_loop (wd + 1) s2 = (wd + 1 + int n, s')"
      and bound: "wd + 1 + int n \<le> 1000"
      and e': "emits s2 (busy_polls s2 n) s'" and c': "console s' = console s2"
      and ones: "\<And>k. k < n \<Longrightarrow> answer s2 (length (calls s2) + 2 * k) = 1"
      and last: "wd + 1 + int n < 1000 \<Longrightarrow> answer s2 (length (calls s2) + 2 * n) \<noteq> 1"
      by blast
    have "lcd_chkstatus_loop wd s = lcd_chkstatus_loop (wd + 1) s2"
      using rd True wd by (subst lcd_chkstatus_loop.simps) (simp add: s2_def)
    then have r: "lcd_chkstatus_loop wd s = (wd + int (Suc n), s')" using loop by simp
    have "emits s ([Gpiod_line_get_value (busy_line s), Usleep 10000] @ busy_polls s2 n) s'"
      using e2 e' by (rule emits_trans)
    then have e: "emits s (busy_polls s (Suc n)) s'"
      using handles_busy_polls [OF h2] by (simp add: busy_polls_Suc)
    have o: "answer s (length (calls s) + 2 * k) = 1" if "k < Suc n" for k
    proof (cases k)
      case 0
      then show ?thesis using True by simp
    next
      case (Suc j)
      then have "j < n" using that by simp
      from ones [OF this] show ?thesis using Suc a2 l2 by (simp add: add.assoc)
    qed
    have f: "answer s (length (calls s) + 2 * Suc n) \<noteq> 1" if "wd + int (Suc n) < 1000"
    proof -
      from that have "wd + 1 + int n < 1000" by simp
      from last [OF this] show ?thesis using a2 l2 by (simp add: add.assoc)
    qed
    show ?thesis
      using r bound e c' c2 o f by (intro exI [of _ "Suc n"] exI [of _ s']) simp
  qed
qed

lemma lcd_chkstatus_loop_null:
  "busy_line s = 0 \<Longrightarrow> lcd_chkstatus_loop wd s = (wd, s)"
  by (subst lcd_chkstatus_loop.simps) (simp add: gpio_read_null)

lemma lcd_chkstatus_polls:
  "\<exists>n\<le>1000. emits s (if busy_line s = 0 then [] else busy_polls s n) (lcd_chkstatus s)
      \<and> (\<forall>k<n. busy_sample s k = 1)
      \<and> (n < 1000 \<longrightarrow> busy_sample s n \<noteq> 1)
      \<and> console (lcd_chkstatus s) = console s @ (if n = 1000 then [Warn_busy_timeout] else [])"
proof (cases "busy_line s = 0")
  case True
  then have "lcd_chkstatus s = s"
    by (simp add: lcd_chkstatus_def lcd_chkstatus_loop_null)
  then show ?thesis
    using True by (intro exI [of _ 0]) (simp add: emits_refl busy_sample_def)
next
  case False
  from lcd_chkstatus_loop_polls [OF False, of 0]
  obtain n s' where loop: "lcd_chkstatus_loop 0 s = (int n, s')" and bound: "int n \<le> 1000"
    and e: "emits s (busy_polls s n) s'" and c: "console s' = console s"
    and ones: "\<forall>k<n. answer s (length (calls s) + 2 * k) = 1"
    and last: "int n < 1000 \<longrightarrow> answer s (length (calls s) + 2 * n) \<noteq> 1"
    by auto
  have r: "lcd_chkstatus s = (if n = 1000 then print Warn_busy_timeout s' else s')"
    using loop bound by (simp add: lcd_chkstatus_def)
  have "emits s (busy_polls s n) (print Warn_busy_timeout s')"
    using emits_trans [OF e print_emits] by simp
  then have "emits s (busy_polls s n) (lcd_chkstatus s)"
    using r e by (cases "n = 1000") simp_all
  moreover have "console (lcd_chkstatus s) = console s @ (if n = 1000 then [Warn_busy_timeout] else [])"
    using r c by (simp add: print_def)
  ultimately show ?thesis
    using False bound ones last by (intro exI [of _ n]) (simp add: busy_sample_def)
qed

lemma ready_wired: "ready s \<Longrightarrow> 0 \<le> spi_fd s \<and> dc_line s \<noteq> 0 \<and> busy_line s \<noteq> 0"
  by (simp add: ready_def)

lemma cmd_after:
  assumes "ready s0" and "emits s0 A s"
  shows "emits s0 (A @ cmd_calls s0 c) (epd_w21_write_cmd c s)"
proof -
  have h: "handles s = handles s0" using assms(2) by (rule emits_handles)
  then have "0 \<le> spi_fd s" "dc_line s \<noteq> 0" using ready_wired [OF assms(1)] handles_fields by metis+
  then have "emits s (cmd_calls s c) (epd_w21_write_cmd c s)" by (rule epd_w21_write_cmd_emits)
  then show ?thesis using emits_trans [OF assms(2)] handles_cmd_calls [OF h] by simp
qed

lemma data_after:
  assumes "ready s0" and "emits s0 A s"
  shows "emits s0 (A @ data_calls s0 b) (epd_w21_write_data b s)"
proof -
  have h: "handles s = handles s0" using assms(2) by (rule emits_handles)
  then have "0 \<le> spi_fd s" "dc_line s \<noteq> 0" using ready_wired [OF assms(1)] handles_fields by metis+
  then have "emits s (data_calls s b) (epd_w21_write_data b s)" by (rule epd_w21_write_data_emits)
  then show ?thesis using emits_trans [OF assms(2)] handles_data_calls [OF h] by simp
qed

lemma chk_after:
  assumes "ready s0" and "emits s0 A s"
  shows "\<exists>n\<le>1000. emits s0 (A @ busy_polls s0 n) (lcd_chkstatus s)"
proof -
  have h: "handles s = handles s0" using assms(2) by (rule emits_handles)
  then have b: "busy_line s \<noteq> 0" using ready_wired [OF assms(1)] handles_fields by metis
  from lcd_chkstatus_polls [of s] b
  obtain n where "n \<le> 1000" "emits s (busy_polls s n) (lcd_chkstatus s)" by auto
  then show ?thesis using emits_trans [OF assms(2)] handles_busy_polls [OF h] by auto
qed

lemma delay_after:
  assumes "emits s0 A s"
  shows "emits s0 (A @ [Usleep (ms * 1000)]) (delay_ms ms s)"
  using emits_trans [OF assms delay_ms_emits] .

lemma send_frame_emits:
  assumes "ready s0" and "EPD_ARRAY \<le> length d"
  shows "i \<le> EPD_ARRAY \<Longrightarrow> emits s0 A s \<Longrightarrow>
         \<exists>s'. send_frame d i s = Some s'
            \<and> emits s0 (A @ concat (map (data_calls s0) (drop i (take EPD_ARRAY d)))) s'"
proof (induction "EPD_ARRAY - i" arbitrary: i s A)
  case 0
  then have "i = EPD_ARRAY" by simp
  then show ?case using "0.prems"(2) assms(2)
    by (subst send_frame.simps) simp
next
  case (Suc m)
  then have i: "i < EPD_ARRAY" by simp
  then have il: "i < length d" using assms(2) by simp
  have e1: "emits s0 (A @ data_calls s0 (d ! i)) (epd_w21_write_data (d ! i) s)"
    using assms(1) Suc.prems(2) by (rule data_after)
  have m: "m = EPD_ARRAY - Suc i" using Suc.hyps(2) by simp
  from Suc.hyps(1) [OF m _ e1] i
  obtain s' where sf: "send_frame d (Suc i) (epd_w21_write_data (d ! i) s) = Some s'"
    and e': "emits s0 ((A @ data_calls s0 (d ! i))
                         @ concat (map (data_calls s0) (drop (Suc i) (take EPD_ARRAY d)))) s'"
    by auto
  have "i < length (take EPD_ARRAY d)" using i il by simp
  then have "drop i (take EPD_ARRAY d) = (d ! i) # drop (Suc i) (take EPD_ARRAY d)"
    using Cons_nth_drop_Suc [of i "take EPD_ARRAY d"] i by simp
  then have "emits s0 (A @ concat (map (data_calls s0) (drop i (take EPD_ARRAY d)))) s'"
    using e' by simp
  moreover have "send_frame d i s = Some s'"
    using sf i il by (subst send_frame.simps) simp
  ultimately show ?case by blast
qed

lemma display_image_raw_calls:
  assumes r: "ready s" and d: "EPD_ARRAY \<le> length d"
  shows "\<exists>s' n. n \<le> 1000 \<and> display_image_raw (Some d) mode s = Some (True, s')
           \<and> emits s ((if mode = DISPLAY_MODE_PARTIAL
                        then cmd_calls s 0x3C @ data_calls s 0x80 else [])
                       @ cmd_calls s 0x24
                       @ concat (map (data_calls s) (take EPD_ARRAY d))
                       @ cmd_calls s 0x22
                       @ data_calls s (if mode = DISPLAY_MODE_FULL then 0xF7 else 0xFF)
                       @ cmd_calls s 0x20
                       @ busy_polls s n) s'"
proof -
  let ?pre = "if mode = DISPLAY_MODE_PARTIAL then cmd_calls s 0x3C @ data_calls s 0x80 else []"
  define s1 where "s1 = (if mode = DISPLAY_MODE_PARTIAL then epd_init_partial s else s)"
  have e1: "emits s ?pre s1"
  proof (cases "mode = DISPLAY_MODE_PARTIAL")
    case True
    have "emits s (([] @ cmd_calls s 0x3C) @ data_calls s 0x80)
            (epd_w21_write_data 0x80 (epd_w21_write_cmd 0x3C s))"
      by (intro data_after cmd_after r emits_refl)
    then show ?thesis using True by (simp add: s1_def epd_init_partial_def run_def)
  next
    case False
    then show ?thesis by (simp add: s1_def emits_refl)
  qed
  define s2 where "s2 = epd_w21_write_cmd 0x24 s1"
  have e2: "emits s (?pre @ cmd_calls s 0x24) s2"
    unfolding s2_def using r e1 by (rule cmd_after)
  from send_frame_emits [OF r d _ e2, of 0]
  obtain s3 where sf: "send_frame d 0 s2 = Some s3"
    and e3: "emits s ((?pre @ cmd_calls s 0x24) @ concat (map (data_calls s) (take EPD_ARRAY d))) s3"
    by auto
  let ?F = "(?pre @ cmd_calls s 0x24) @ concat (map (data_calls s) (take EPD_ARRAY d))"
  let ?v = "if mode = DISPLAY_MODE_FULL then 0xF7 else 0xFF :: byte"
  define s4 where "s4 = epd_w21_write_cmd 0x20 (epd_w21_write_data ?v (epd_w21_write_cmd 0x22 s3))"
  have e4: "emits s (((?F @ cmd_calls s 0x22) @ data_calls s ?v) @ cmd_calls s 0x20) s4"
    unfolding s4_def by (intro cmd_after data_after r e3)
  from chk_after [OF r e4]
  obtain n where n: "n \<le> 1000"
    and e5: "emits s ((((?F @ cmd_calls s 0x22) @ data_calls s ?v) @ cmd_calls s 0x20)
                       @ busy_polls s n) (lcd_chkstatus s4)"
    by blast
  have upd: "(if mode = DISPLAY_MODE_FULL then epd_update s3 else epd_update_partial s3)
               = lcd_chkstatus s4"
    by (simp add: s4_def epd_update_def epd_update_partial_def run_def)
  have "initialized s" using r by (simp add: ready_def)
  then have "display_image_raw (Some d) mode s = Some (True, lcd_chkstatus s4)"
    using sf upd by (simp add: display_image_raw_def s1_def [symmetric] s2_def [symmetric])
  then show ?thesis using n e5 by (intro exI [of _ "lcd_chkstatus s4"] exI [of _ n]) simp
qed

lemma emits_calls: "emits s cs s' \<Longrightarrow> calls s' = calls s @ cs"
  by (simp add: emits_def)

lemma display_sleep_emits:
  assumes "ready s"
  shows "emits s (cmd_calls s 0x10 @ data_calls s 0x01 @ [Usleep 100000]) (display_sleep s)"
proof -
  have "emits s ((([] @ cmd_calls s 0x10) @ data_calls s 0x01) @ [Usleep (100 * 1000)])
          (delay_ms 100 (epd_w21_write_data 0x01 (epd_w21_write_cmd 0x10 s)))"
    by (intro delay_after data_after cmd_after assms emits_refl)
  moreover have "initialized s" using assms by (simp add: ready_def)
  ultimately show ?thesis by (simp add: display_sleep_def run_def)
qed

lemma memset_white:
  "memset (replicate EPD_ARRAY 0) 0xFF EPD_ARRAY = Some (replicate EPD_ARRAY 0xFF)"
  by (simp add: memset_def)

lemma display_clear_eq:
  "initialized s \<Longrightarrow>
     display_clear s = display_image_raw (Some (replicate EPD_ARRAY 0xFF)) DISPLAY_MODE_FULL s"
  by (simp add: display_clear_def memset_white)

lemma display_not_initialized:
  assumes "\<not> initialized s"
  shows "display_image_raw data mode s = Some (False, print Err_not_initialized_or_invalid_data s)"
    and "display_image_png dec filename mode s
           = Some (False, print Err_not_initialized_or_invalid_filename s)"
    and "display_clear s = Some (False, print Err_not_initialized s)"
  using assms by (simp_all add: display_image_raw_def display_image_png_def display_clear_def)

lemma display_cleanup_not_initialized: "\<not> initialized (display_cleanup s)"
  by (simp add: display_cleanup_def Let_def print_def)

lemma display_image_png_ok:
  assumes r: "ready s"
    and err: "png_error (dec name) = 0"
    and w: "png_width (dec name) = EPD_WIDTH" and h: "png_height (dec name) = EPD_HEIGHT"
    and img: "length (png_image (dec name)) = 4 * EPD_WIDTH * EPD_HEIGHT"
  shows "\<exists>s'. display_image_png dec (Some name) mode s = Some (True, s')"
proof -
  have hyps: "png_width (dec name) = 128" "png_height (dec name) = 250"
    "length (png_image (dec name)) = 128000" "4000 \<le> length (replicate EPD_ARRAY (0::byte))"
    using w h img by (simp_all add: panel_consts)
  from convert_png_frame [of dec name "replicate EPD_ARRAY 0", OF err hyps]
  obtain out where conv: "convert_png_to_1bit dec (Some name) (Some (replicate EPD_ARRAY 0))
                            = Some (True, Some out, [])"
    and len: "length out = length (replicate EPD_ARRAY (0::byte))" by blast
  have len': "EPD_ARRAY \<le> length out" using len by simp
  have "ready (s\<lparr>console := console s @ []\<rparr>)" using r by (simp add: ready_def)
  from display_image_raw_calls [OF this len', of mode]
  obtain s' where "display_image_raw (Some out) mode (s\<lparr>console := console s @ []\<rparr>) = Some (True, s')"
    by blast
  moreover have "initialized s" using r by (simp add: ready_def)
  ultimately show ?thesis using conv by (simp add: display_image_png_def)
qed

subsection \<open>Refresh modes\<close>

text \<open>
  Claim C5. On a Ready handle and for every frame of at least \<open>EPD_ARRAY\<close> bytes,
  \<open>display_image_raw\<close> returns true and makes exactly these calls. In partial mode:
  command \<open>0x3C\<close> with data \<open>0x80\<close> (border waveform), then command \<open>0x24\<close> and
  the frame bytes as data, then \<open>0x22\<close>, \<open>0xFF\<close>, \<open>0x20\<close> and the busy-wait. In
  full mode the first call already belongs to command \<open>0x24\<close>: no border-waveform
  command comes before the frame, and the update is \<open>0x22\<close>, \<open>0xF7\<close>, \<open>0x20\<close>.
\<close>

theorem display_image_raw_mode_sequence:
  assumes "ready s" and "EPD_ARRAY \<le> length frame"
  shows "(\<exists>s' n. n \<le> 1000
            \<and> display_image_raw (Some frame) DISPLAY_MODE_PARTIAL s = Some (True, s')
            \<and> calls s' = calls s
                 @ cmd_calls s 0x3C @ data_calls s 0x80
                 @ cmd_calls s 0x24 @ concat (map (data_calls s) (take EPD_ARRAY frame))
                 @ cmd_calls s 0x22 @ data_calls s 0xFF @ cmd_calls s 0x20
                 @ busy_polls s n)
       \<and> (\<exists>s' n. n \<le> 1000
            \<and> display_image_raw (Some frame) DISPLAY_MODE_FULL s = Some (True, s')
            \<and> calls s' = calls s
                 @ cmd_calls s 0x24 @ concat (map (data_calls s) (take EPD_ARRAY frame))
                 @ cmd_calls s 0x22 @ data_calls s 0xF7 @ cmd_calls s 0x20
                 @ busy_polls s n)"
proof
  from display_image_raw_calls [OF assms, of DISPLAY_MODE_PARTIAL]
  obtain s' n where "n \<le> 1000"
    "display_image_raw (Some frame) DISPLAY_MODE_PARTIAL s = Some (True, s')"
    "emits s ((cmd_calls s 0x3C @ data_calls s 0x80)
                 @ cmd_calls s 0x24 @ concat (map (data_calls s) (take EPD_ARRAY frame))
                 @ cmd_calls s 0x22 @ data_calls s 0xFF @ cmd_calls s 0x20
                 @ busy_polls s n) s'"
    by auto
  then show "\<exists>s' n. n \<le> 1000
            \<and> display_image_raw (Some frame) DISPLAY_MODE_PARTIAL s = Some (True, s')
            \<and> calls s' = calls s
                 @ cmd_calls s 0x3C @ data_calls s 0x80
                 @ cmd_calls s 0x24 @ concat (map (data_calls s) (take EPD_ARRAY frame))
                 @ cmd_calls s 0x22 @ data_calls s 0xFF @ cmd_calls s 0x20
                 @ busy_polls s n"
    using emits_calls by fastforce
next
  from display_image_raw_calls [OF assms, of DISPLAY_MODE_FULL]
  obtain s' n where "n \<le> 1000"
    "display_image_raw (Some frame) DISPLAY_MODE_FULL s = Some (True, s')"
    "emits s (cmd_calls s 0x24 @ concat (map (data_calls s) (take EPD_ARRAY frame))
                 @ cmd_calls s 0x22 @ data_calls s 0xF7 @ cmd_calls s 0x20
                 @ busy_polls s n) s'"
    by auto
  then show "\<exists>s' n. n \<le> 1000
            \<and> display_image_raw (Some frame) DISPLAY_MODE_FULL s = Some (True, s')
            \<and> calls s' = calls s
                 @ cmd_calls s 0x24 @ concat (map (data_calls s) (take EPD_ARRAY frame))
                 @ cmd_calls s 0x22 @ data_calls s 0xF7 @ cmd_calls s 0x20
                 @ busy_polls s n"
    using emits_calls by fastforce
qed

text \<open>
  A frame whose bytes all equal \<open>0x3C\<close>, on a Ready handle: the first nine calls in
  partial mode and the first three in full mode.
\<close>

theorem display_image_raw_mode_sequence_witness:
  "ready \<lparr>spi_fd = 3, chip = 4096, dc_line = 4104, rst_line = 4112, busy_line = 4120,
          initialized = True, calls = [], console = [], answer = (\<lambda>n. 0)\<rparr>
   \<and> (\<exists>s'. display_image_raw (Some (replicate 4000 0x3C)) DISPLAY_MODE_PARTIAL
              \<lparr>spi_fd = 3, chip = 4096, dc_line = 4104, rst_line = 4112, busy_line = 4120,
               initialized = True, calls = [], console = [], answer = (\<lambda>n. 0)\<rparr>
            = Some (True, s')
          \<and> take 9 (calls s')
              = [Usleep 10, Gpiod_line_set_value 4104 0, Spi_transfer 3 0x3C,
                 Usleep 10, Gpiod_line_set_value 4104 1, Spi_transfer 3 0x80,
                 Usleep 10, Gpiod_line_set_value 4104 0, Spi_transfer 3 0x24])
   \<and> (\<exists>s'. display_image_raw (Some (replicate 4000 0x3C)) DISPLAY_MODE_FULL
              \<lparr>spi_fd = 3, chip = 4096, dc_line = 4104, rst_line = 4112, busy_line = 4120,
               initialized = True, calls = [], console = [], answer = (\<lambda>n. 0)\<rparr>
            = Some (True, s')
          \<and> take 3 (calls s')
              = [Usleep 10, Gpiod_line_set_value 4104 0, Spi_transfer 3 0x24])"
proof -
  let ?s = "\<lparr>spi_fd = 3, chip = 4096, dc_line = 4104, rst_line = 4112, busy_line = 4120,
             initialized = True, calls = [], console = [], answer = (\<lambda>n::nat. 0::int)\<rparr>"
  let ?f = "replicate 4000 (0x3C::byte)"
  have r: "ready ?s" by (simp add: ready_def)
  have f: "EPD_ARRAY \<le> length ?f" by (simp add: panel_consts)
  note seq = display_image_raw_mode_sequence [OF r f]
  from seq obtain s1 where
    p1: "display_image_raw (Some ?f) DISPLAY_MODE_PARTIAL ?s = Some (True, s1)"
    and "\<exists>n. calls s1 = calls ?s
                 @ cmd_calls ?s 0x3C @ data_calls ?s 0x80
                 @ cmd_calls ?s 0x24 @ concat (map (data_calls ?s) (take EPD_ARRAY ?f))
                 @ cmd_calls ?s 0x22 @ data_calls ?s 0xFF @ cmd_calls ?s 0x20
                 @ busy_polls ?s n"
    by blast
  then have c1: "take 9 (calls s1)
              = [Usleep 10, Gpiod_line_set_value 4104 0, Spi_transfer 3 0x3C,
                 Usleep 10, Gpiod_line_set_value 4104 1, Spi_transfer 3 0x80,
                 Usleep 10, Gpiod_line_set_value 4104 0, Spi_transfer 3 0x24]"
    by (auto simp add: cmd_calls_def data_calls_def)
  from seq obtain s2 where
    p2: "display_image_raw (Some ?f) DISPLAY_MODE_FULL ?s = Some (True, s2)"
    and "\<exists>n. calls s2 = calls ?s
                 @ cmd_calls ?s 0x24 @ concat (map (data_calls ?s) (take EPD_ARRAY ?f))
                 @ cmd_calls ?s 0x22 @ data_calls ?s 0xF7 @ cmd_calls ?s 0x20
                 @ busy_polls ?s n"
    by blast
  then have c2: "take 3 (calls s2)
              = [Usleep 10, Gpiod_line_set_value 4104 0, Spi_transfer 3 0x24]"
    by (auto simp add: cmd_calls_def)
  show ?thesis using r p1 c1 p2 c2 by blast
qed

subsection \<open>Clear\<close>

text \<open>
  Claim C8. On a Ready handle \<open>display_clear\<close> is \<open>display_image_raw\<close> applied to
  the frame of 4000 bytes \<open>0xFF\<close> in full-refresh mode: the same returned flag, the
  same calls, the same printed lines, the same variables. It returns true, and the
  calls are command \<open>0x24\<close>, 4000 data bytes \<open>0xFF\<close>, the full update and the
  busy-wait.
\<close>

theorem display_clear_sends_white_full_frame:
  assumes "ready s"
  shows "display_clear s
           = display_image_raw (Some (replicate 4000 0xFF)) DISPLAY_MODE_FULL s
       \<and> (\<exists>s' n. n \<le> 1000 \<and> display_clear s = Some (True, s')
            \<and> calls s' = calls s
                 @ cmd_calls s 0x24 @ concat (replicate 4000 (data_calls s 0xFF))
                 @ cmd_calls s 0x22 @ data_calls s 0xF7 @ cmd_calls s 0x20
                 @ busy_polls s n)"
proof -
  have i: "initialized s" using assms by (simp add: ready_def)
  have eq: "display_clear s = display_image_raw (Some (replicate EPD_ARRAY 0xFF)) DISPLAY_MODE_FULL s"
    using i by (rule display_clear_eq)
  have "EPD_ARRAY \<le> length (replicate EPD_ARRAY (0xFF::byte))" by simp
  from display_image_raw_calls [OF assms this, of DISPLAY_MODE_FULL]
  obtain s' n where n: "n \<le> 1000"
    and raw: "display_image_raw (Some (replicate EPD_ARRAY 0xFF)) DISPLAY_MODE_FULL s = Some (True, s')"
    and e: "emits s (cmd_calls s 0x24
                 @ concat (map (data_calls s) (take EPD_ARRAY (replicate EPD_ARRAY 0xFF)))
                 @ cmd_calls s 0x22 @ data_calls s 0xF7 @ cmd_calls s 0x20
                 @ busy_polls s n) s'"
    by auto
  have "calls s' = calls s
                 @ cmd_calls s 0x24 @ concat (replicate EPD_ARRAY (data_calls s 0xFF))
                 @ cmd_calls s 0x22 @ data_calls s 0xF7 @ cmd_calls s 0x20
                 @ busy_polls s n"
    using emits_calls [OF e] by simp
  then show ?thesis using eq raw n unfolding panel_consts by auto
qed

text \<open>
  The equality on a concrete Ready handle.
\<close>

theorem display_clear_sends_white_full_frame_witness:
  "ready \<lparr>spi_fd = 3, chip = 4096, dc_line = 4104, rst_line = 4112, busy_line = 4120,
          initialized = True, calls = [], console = [], answer = (\<lambda>n. 0)\<rparr>
   \<and> display_clear
        \<lparr>spi_fd = 3, chip = 4096, dc_line = 4104, rst_line = 4112, busy_line = 4120,
         initialized = True, calls = [], console = [], answer = (\<lambda>n. 0)\<rparr>
       = display_image_raw (Some (replicate 4000 0xFF)) DISPLAY_MODE_FULL
           \<lparr>spi_fd = 3, chip = 4096, dc_line = 4104, rst_line = 4112, busy_line = 4120,
            initialized = True, calls = [], console = [], answer = (\<lambda>n. 0)\<rparr>
   \<and> (\<exists>s'. display_clear
              \<lparr>spi_fd = 3, chip = 4096, dc_line = 4104, rst_line = 4112, busy_line = 4120,
               initialized = True, calls = [], console = [], answer = (\<lambda>n. 0)\<rparr>
            = Some (True, s'))"
proof -
  let ?s = "\<lparr>spi_fd = 3, chip = 4096, dc_line = 4104, rst_line = 4112, busy_line = 4120,
             initialized = True, calls = [], console = [], answer = (\<lambda>n::nat. 0::int)\<rparr>"
  have r: "ready ?s" by (simp add: ready_def)
  from display_clear_sends_white_full_frame [OF r] r show ?thesis by blast
qed

subsection \<open>Busy-wait\<close>

text \<open>
  Claim C9. \<open>lcd_chkstatus\<close> always returns (the loop is a total function: its
  counter rises towards 1000). It sleeps \<open>n \<le> 1000\<close> times, 10 ms each, with a read of
  the busy line before every sleep and one last read; the first \<open>n\<close> reads returned 1
  and, when \<open>n < 1000\<close>, the read that ended the loop returned something else. It
  prints the timeout warning exactly when the counter reached 1000, and changes none of
  the driver's variables. The timeout is not reported to the caller:
  \<open>display_image_raw\<close> on a Ready handle returns true whatever the busy line reads.
\<close>

theorem lcd_chkstatus_bounded_wait:
  "\<exists>n\<le>1000.
      calls (lcd_chkstatus s) = calls s @ (if busy_line s = 0 then [] else busy_polls s n)
    \<and> (\<forall>k<n. busy_sample s k = 1)
    \<and> (n < 1000 \<longrightarrow> busy_sample s n \<noteq> 1)
    \<and> console (lcd_chkstatus s) = console s @ (if n = 1000 then [Warn_busy_timeout] else [])
    \<and> handles (lcd_chkstatus s) = handles s
    \<and> (ready s \<and> EPD_ARRAY \<le> length frame
          \<longrightarrow> (\<exists>s'. display_image_raw (Some frame) mode s = Some (True, s')))"
proof -
  from lcd_chkstatus_polls [of s]
  obtain n where n: "n \<le> 1000"
    and e: "emits s (if busy_line s = 0 then [] else busy_polls s n) (lcd_chkstatus s)"
    and rest: "\<forall>k<n. busy_sample s k = 1" "n < 1000 \<longrightarrow> busy_sample s n \<noteq> 1"
      "console (lcd_chkstatus s) = console s @ (if n = 1000 then [Warn_busy_timeout] else [])"
    by blast
  have raw: "\<exists>s'. display_image_raw (Some frame) mode s = Some (True, s')"
    if "ready s" "EPD_ARRAY \<le> length frame"
    using display_image_raw_calls [OF that, of mode] by blast
  show ?thesis
    using n emits_calls [OF e] emits_handles [OF e] rest raw
    by (intro exI [of _ n]) blast
qed

text \<open>
  A panel that reads busy for ever: 1000 sleeps and 1001 reads, the warning on the
  console, and a display operation that still returns true.
\<close>

theorem lcd_chkstatus_bounded_wait_witness:
  "console (lcd_chkstatus
      \<lparr>spi_fd = 3, chip = 4096, dc_line = 4104, rst_line = 4112, busy_line = 4120,
       initialized = True, calls = [], console = [], answer = (\<lambda>n. 1)\<rparr>)
     = [Warn_busy_timeout]
   \<and> length (calls (lcd_chkstatus
      \<lparr>spi_fd = 3, chip = 4096, dc_line = 4104, rst_line = 4112, busy_line = 4120,
       initialized = True, calls = [], console = [], answer = (\<lambda>n. 1)\<rparr>)) = 2001
   \<and> (\<exists>s'. display_image_raw (Some (replicate 4000 0x00)) DISPLAY_MODE_FULL
      \<lparr>spi_fd = 3, chip = 4096, dc_line = 4104, rst_line = 4112, busy_line = 4120,
       initialized = True, calls = [], console = [], answer = (\<lambda>n. 1)\<rparr> = Some (True, s'))"
proof -
  let ?s = "\<lparr>spi_fd = 3, chip = 4096, dc_line = 4104, rst_line = 4112, busy_line = 4120,
             initialized = True, calls = [], console = [], answer = (\<lambda>n::nat. 1::int)\<rparr>"
  have r: "ready ?s \<and> EPD_ARRAY \<le> length (replicate 4000 (0x00::byte))"
    by (simp add: ready_def panel_consts)
  have busy: "busy_sample ?s k = 1" for k by (simp add: busy_sample_def)
  from lcd_chkstatus_bounded_wait [of ?s "replicate 4000 0x00" DISPLAY_MODE_FULL]
  obtain n where n: "n \<le> 1000"
    and c: "calls (lcd_chkstatus ?s) = calls ?s @ (if busy_line ?s = 0 then [] else busy_polls ?s n)"
    and l: "n < 1000 \<longrightarrow> busy_sample ?s n \<noteq> 1"
    and w: "console (lcd_chkstatus ?s) = console ?s @ (if n = 1000 then [Warn_busy_timeout] else [])"
    and d: "ready ?s \<and> EPD_ARRAY \<le> length (replicate 4000 (0x00::byte))
          \<longrightarrow> (\<exists>s'. display_image_raw (Some (replicate 4000 0x00)) DISPLAY_MODE_FULL ?s = Some (True, s'))"
    by blast
  have n1000: "n = 1000" using n l busy by auto
  have "length (busy_polls ?s n) = 2 * n + 1"
    by (simp add: busy_polls_def length_concat sum_list_replicate)
  then have "length (calls (lcd_chkstatus ?s)) = 2001" using c n1000 by simp
  moreover have "console (lcd_chkstatus ?s) = [Warn_busy_timeout]" using w n1000 by simp
  ultimately show ?thesis using d r by blast
qed

subsection \<open>Initialization and teardown\<close>

lemma write_cmd_handles: "handles (epd_w21_write_cmd c s) = handles s"
  by (simp add: epd_w21_write_cmd_def spi_delay_def gpio_write_def syscall_def print_def
        handles_def Let_def split: prod.splits)

lemma write_data_handles: "handles (epd_w21_write_data b s) = handles s"
  by (simp add: epd_w21_write_data_def spi_delay_def gpio_write_def syscall_def print_def
        handles_def Let_def split: prod.splits)

lemma lcd_chkstatus_handles: "handles (lcd_chkstatus s) = handles s"
  using lcd_chkstatus_polls [of s] emits_handles by blast

lemma delay_ms_handles: "handles (delay_ms ms s) = handles s"
  using delay_ms_emits emits_handles by blast

lemma run_handles:
  assumes "\<And>f t. f \<in> set stmts \<Longrightarrow> handles (f t) = handles t"
  shows "handles (run stmts s) = handles s"
  using assms
proof (induction stmts arbitrary: s)
  case Nil
  then show ?case by (simp add: run_def)
next
  case (Cons f fs)
  have "handles (run fs (f s)) = handles (f s)"
    using Cons.IH [of "f s"] Cons.prems by simp
  then show ?case using Cons.prems [of f s] by (simp add: run_def)
qed

lemma epd_init_hardware_handles: "handles (epd_init_hardware s) = handles s"
  unfolding epd_init_hardware_def
  by (rule run_handles)
     (auto simp add: write_cmd_handles write_data_handles lcd_chkstatus_handles
        delay_ms_handles gpio_write_handles)

text \<open>
  Ready is what a successful initialization establishes: the flag is set only after the
  descriptor, the chip and the three lines have been obtained, and the panel set-up that
  follows changes none of them.
\<close>

lemma display_init_ready:
  assumes "display_init s = (True, s1)" and "\<not> initialized s"
  shows "ready s1"
proof -
  have h: "spi_fd (epd_init_hardware t) = spi_fd t \<and> chip (epd_init_hardware t) = chip t
      \<and> dc_line (epd_init_hardware t) = dc_line t \<and> rst_line (epd_init_hardware t) = rst_line t
      \<and> busy_line (epd_init_hardware t) = busy_line t" for t
    using handles_fields [OF epd_init_hardware_handles [of t]] by simp
  show ?thesis
    using assms
    by (auto simp add: display_init_def configure_spi_def request_lines_def syscall_def
          Let_def print_def ready_def h split: if_splits prod.splits)
qed

lemma display_init_succeeds:
  assumes "\<not> initialized s" and "\<And>n. 0 < answer s n"
  shows "fst (display_init s)"
proof -
  have pos: "\<not> answer s n < 0" "answer s n \<noteq> 0" for n
    using assms(2) [of n] by simp_all
  show ?thesis
    using assms(1)
    by (simp add: display_init_def configure_spi_def request_lines_def syscall_def Let_def pos
             split: prod.splits)
qed

text \<open>
  Claim C6. When \<open>display_init\<close> has returned true, the handle is initialized, and
  a second \<open>display_init\<close> right after it returns true and leaves the whole state as
  it is: the descriptor and the line and chip handles are unchanged, and no call is
  made, so nothing is acquired twice.
\<close>

theorem display_init_idempotent:
  assumes "display_init s = (True, s1)"
  shows "initialized s1 \<and> display_init s1 = (True, s1)"
proof -
  have "initialized s1"
    using assms
    by (auto simp add: display_init_def Let_def print_def split: if_splits prod.splits)
  then show ?thesis by (simp add: display_init_def)
qed

text \<open>
  From the startup state, with an operating system whose call number \<open>n\<close> answers
  \<open>n + 3\<close>: the first \<open>display_init\<close> succeeds, and so does the second.
\<close>

theorem display_init_idempotent_witness:
  "fst (display_init (startup (\<lambda>n. int n + 3)))
   \<and> initialized (snd (display_init (startup (\<lambda>n. int n + 3))))
   \<and> display_init (snd (display_init (startup (\<lambda>n. int n + 3))))
       = (True, snd (display_init (startup (\<lambda>n. int n + 3))))"
proof -
  let ?s = "startup (\<lambda>n. int n + 3)"
  have ok: "fst (display_init ?s)"
    by (rule display_init_succeeds) (simp_all add: startup_def)
  then have "display_init ?s = (True, snd (display_init ?s))"
    by (cases "display_init ?s") simp
  from display_init_idempotent [OF this] ok show ?thesis by simp
qed

text \<open>
  Claim C7. \<open>display_cleanup\<close> is defined on every state. It closes the descriptor
  exactly when it is valid (not negative), releases each of the three lines exactly when
  its handle is not null, and closes the chip exactly when its handle is not null, in
  this order. Afterwards the descriptor is invalid (\<open>-1\<close> if it was open), all four
  handles are null and the initialized flag is false. A second \<open>display_cleanup\<close>
  makes no call, and neither does one on the startup state.
\<close>

theorem display_cleanup_releases_everything:
  "spi_fd (display_cleanup s) = (if 0 \<le> spi_fd s then - 1 else spi_fd s)
   \<and> spi_fd (display_cleanup s) < 0
   \<and> chip (display_cleanup s) = 0
   \<and> dc_line (display_cleanup s) = 0
   \<and> rst_line (display_cleanup s) = 0
   \<and> busy_line (display_cleanup s) = 0
   \<and> \<not> initialized (display_cleanup s)
   \<and> calls (display_cleanup s)
       = calls s
         @ (if 0 \<le> spi_fd s then [Close (spi_fd s)] else [])
         @ (if dc_line s \<noteq> 0 then [Gpiod_line_release (dc_line s)] else [])
         @ (if rst_line s \<noteq> 0 then [Gpiod_line_release (rst_line s)] else [])
         @ (if busy_line s \<noteq> 0 then [Gpiod_line_release (busy_line s)] else [])
         @ (if chip s \<noteq> 0 then [Gpiod_chip_close (chip s)] else [])
   \<and> console (display_cleanup s) = console s @ [Info_cleaned_up]
   \<and> calls (display_cleanup (display_cleanup s)) = calls (display_cleanup s)
   \<and> calls (display_cleanup (startup os)) = []"
proof -
  have fields: "spi_fd (display_cleanup t) = (if 0 \<le> spi_fd t then - 1 else spi_fd t)
      \<and> spi_fd (display_cleanup t) < 0 \<and> chip (display_cleanup t) = 0
      \<and> dc_line (display_cleanup t) = 0 \<and> rst_line (display_cleanup t) = 0
      \<and> busy_line (display_cleanup t) = 0 \<and> \<not> initialized (display_cleanup t)
      \<and> console (display_cleanup t) = console t @ [Info_cleaned_up]" for t
    by (simp add: display_cleanup_def Let_def syscall_def print_def)
  have cs: "calls (display_cleanup t)
       = calls t
         @ (if 0 \<le> spi_fd t then [Close (spi_fd t)] else [])
         @ (if dc_line t \<noteq> 0 then [Gpiod_line_release (dc_line t)] else [])
         @ (if rst_line t \<noteq> 0 then [Gpiod_line_release (rst_line t)] else [])
         @ (if busy_line t \<noteq> 0 then [Gpiod_line_release (busy_line t)] else [])
         @ (if chip t \<noteq> 0 then [Gpiod_chip_close (chip t)] else [])" for t
    by (simp add: display_cleanup_def Let_def syscall_def print_def)
  have again: "calls (display_cleanup (display_cleanup s)) = calls (display_cleanup s)"
    using cs [of "display_cleanup s"] fields [of s] by simp
  have start: "calls (display_cleanup (startup os)) = []"
    using cs [of "startup os"] by (simp add: startup_def)
  show ?thesis using fields [of s] cs [of s] again start by simp
qed

subsection \<open>Sleep\<close>

lemma display_cleanup_answer: "answer (display_cleanup s) = answer s"
  by (simp add: display_cleanup_def Let_def syscall_def print_def)

lemma display_image_png_calls:
  assumes r: "ready s"
    and err: "png_error (dec name) = 0"
    and w: "png_width (dec name) = EPD_WIDTH" and h: "png_height (dec name) = EPD_HEIGHT"
    and img: "length (png_image (dec name)) = 4 * EPD_WIDTH * EPD_HEIGHT"
  shows "\<exists>s' n out. n \<le> 1000
           \<and> convert_png_to_1bit dec (Some name) (Some (replicate EPD_ARRAY 0))
                = Some (True, Some out, [])
           \<and> length out = EPD_ARRAY
           \<and> display_image_png dec (Some name) mode s = Some (True, s')
           \<and> emits s ((if mode = DISPLAY_MODE_PARTIAL
                        then cmd_calls s 0x3C @ data_calls s 0x80 else [])
                       @ cmd_calls s 0x24
                       @ concat (map (data_calls s) (take EPD_ARRAY out))
                       @ cmd_calls s 0x22
                       @ data_calls s (if mode = DISPLAY_MODE_FULL then 0xF7 else 0xFF)
                       @ cmd_calls s 0x20
                       @ busy_polls s n) s'"
proof -
  have hyps: "png_width (dec name) = 128" "png_height (dec name) = 250"
    "length (png_image (dec name)) = 128000" "4000 \<le> length (replicate EPD_ARRAY (0::byte))"
    using w h img by (simp_all add: panel_consts)
  from convert_png_frame [of dec name "replicate EPD_ARRAY 0", OF err hyps]
  obtain out where conv: "convert_png_to_1bit dec (Some name) (Some (replicate EPD_ARRAY 0))
                            = Some (True, Some out, [])"
    and len: "length out = length (replicate EPD_ARRAY (0::byte))" by blast
  have len': "EPD_ARRAY \<le> length out" and len'': "length out = EPD_ARRAY" using len by simp_all
  define s1 where "s1 = s\<lparr>console := console s @ []\<rparr>"
  have h1: "handles s1 = handles s" and c1: "calls s1 = calls s" and a1: "answer s1 = answer s"
    by (simp_all add: s1_def handles_def)
  have r1: "ready s1" using r handles_ready [OF h1] by simp
  from display_image_raw_calls [OF r1 len', of mode]
  obtain s' n where n: "n \<le> 1000"
    and raw: "display_image_raw (Some out) mode s1 = Some (True, s')"
    and e: "emits s1 ((if mode = DISPLAY_MODE_PARTIAL
                        then cmd_calls s1 0x3C @ data_calls s1 0x80 else [])
                       @ cmd_calls s1 0x24
                       @ concat (map (data_calls s1) (take EPD_ARRAY out))
                       @ cmd_calls s1 0x22
                       @ data_calls s1 (if mode = DISPLAY_MODE_FULL then 0xF7 else 0xFF)
                       @ cmd_calls s1 0x20
                       @ busy_polls s1 n) s'"
    by blast
  have e': "emits s ((if mode = DISPLAY_MODE_PARTIAL
                        then cmd_calls s 0x3C @ data_calls s 0x80 else [])
                       @ cmd_calls s 0x24
                       @ concat (map (data_calls s) (take EPD_ARRAY out))
                       @ cmd_calls s 0x22
                       @ data_calls s (if mode = DISPLAY_MODE_FULL then 0xF7 else 0xFF)
                       @ cmd_calls s 0x20
                       @ busy_polls s n) s'"
    using e unfolding emits_def handles_cmd_calls [OF h1] handles_data_calls [OF h1]
      handles_busy_polls [OF h1] h1 c1 a1 .
  have "initialized s" using r by (simp add: ready_def)
  then have "display_image_png dec (Some name) mode s = Some (True, s')"
    using conv raw by (simp add: display_image_png_def s1_def)
  then show ?thesis using n conv len'' e' by blast
qed

lemma emits_after:
  assumes "emits s A t" and "emits t B s'"
  shows "handles s' = handles s \<and> calls s' = calls t @ B"
  using assms by (simp add: emits_def)

text \<open>
  Claim C3, as the code has it. \<open>display_sleep\<close> on a Ready handle sends the
  deep-sleep command \<open>0x10\<close> with data \<open>0x01\<close> and waits 100 ms; it changes none
  of the driver's variables, so the handle stays Ready: the driver keeps no record of
  the panel being asleep. A \<open>display_init\<close> after it returns true at once and leaves
  the state as it is. \<open>display_image_raw\<close> with a frame, \<open>display_image_png\<close> with a
  valid 128 by 250 image and \<open>display_clear\<close> after it return true and make the same
  calls as on any Ready handle: the border-waveform command in partial mode, command
  \<open>0x24\<close>, the 4000 frame bytes (for the PNG, the frame the codec produces; for
  clear, \<open>0xFF\<close>), the update commands of the mode and the busy-wait. Once the handle
  has been torn down by \<open>display_cleanup\<close>, each of the three prints its error,
  makes no call and returns false; and when a \<open>display_init\<close> after the teardown
  succeeds, the handle is Ready again and the three return true.
\<close>

theorem display_sleep_keeps_handle_ready:
  assumes "ready s" and "EPD_ARRAY \<le> length frame"
    and "png_error (dec name) = 0"
    and "png_width (dec name) = EPD_WIDTH" and "png_height (dec name) = EPD_HEIGHT"
    and "length (png_image (dec name)) = 4 * EPD_WIDTH * EPD_HEIGHT"
  shows "handles (display_sleep s) = handles s
       \<and> answer (display_sleep s) = answer s
       \<and> ready (display_sleep s)
       \<and> calls (display_sleep s)
           = calls s @ cmd_calls s 0x10 @ data_calls s 0x01 @ [Usleep 100000]
       \<and> display_init (display_sleep s) = (True, display_sleep s)
       \<and> (\<exists>s' n. n \<le> 1000
             \<and> display_image_raw (Some frame) mode (display_sleep s) = Some (True, s')
             \<and> handles s' = handles s
             \<and> calls s' = calls (display_sleep s)
                  @ (if mode = DISPLAY_MODE_PARTIAL
                     then cmd_calls s 0x3C @ data_calls s 0x80 else [])
                  @ cmd_calls s 0x24
                  @ concat (map (data_calls s) (take EPD_ARRAY frame))
                  @ cmd_calls s 0x22
                  @ data_calls s (if mode = DISPLAY_MODE_FULL then 0xF7 else 0xFF)
                  @ cmd_calls s 0x20
                  @ busy_polls s n)
       \<and> (\<exists>s' n out. n \<le> 1000
             \<and> convert_png_to_1bit dec (Some name) (Some (replicate EPD_ARRAY 0))
                  = Some (True, Some out, [])
             \<and> length out = EPD_ARRAY
             \<and> display_image_png dec (Some name) mode (display_sleep s) = Some (True, s')
             \<and> handles s' = handles s
             \<and> calls s' = calls (display_sleep s)
                  @ (if mode = DISPLAY_MODE_PARTIAL
                     then cmd_calls s 0x3C @ data_calls s 0x80 else [])
                  @ cmd_calls s 0x24
                  @ concat (map (data_calls s) out)
                  @ cmd_calls s 0x22
                  @ data_calls s (if mode = DISPLAY_MODE_FULL then 0xF7 else 0xFF)
                  @ cmd_calls s 0x20
                  @ busy_polls s n)
       \<and> (\<exists>s' n. n \<le> 1000
             \<and> display_clear (display_sleep s) = Some (True, s')
             \<and> handles s' = handles s
             \<and> calls s' = calls (display_sleep s)
                  @ cmd_calls s 0x24
                  @ concat (replicate EPD_ARRAY (data_calls s 0xFF))
                  @ cmd_calls s 0x22 @ data_calls s 0xF7 @ cmd_calls s 0x20
                  @ busy_polls s n)
       \<and> display_image_raw (Some frame) mode (display_cleanup (display_sleep s))
           = Some (False, print Err_not_initialized_or_invalid_data
                            (display_cleanup (display_sleep s)))
       \<and> display_image_png dec (Some name) mode (display_cleanup (display_sleep s))
           = Some (False, print Err_not_initialized_or_invalid_filename
                            (display_cleanup (display_sleep s)))
       \<and> display_clear (display_cleanup (display_sleep s))
           = Some (False, print Err_not_initialized (display_cleanup (display_sleep s)))
       \<and> (fst (display_init (display_cleanup (display_sleep s)))
            \<longrightarrow> ready (snd (display_init (display_cleanup (display_sleep s))))
              \<and> (\<exists>s'. display_image_raw (Some frame) mode
                          (snd (display_init (display_cleanup (display_sleep s))))
                        = Some (True, s'))
              \<and> (\<exists>s'. display_image_png dec (Some name) mode
                          (snd (display_init (display_cleanup (display_sleep s))))
                        = Some (True, s'))
              \<and> (\<exists>s'. display_clear (snd (display_init (display_cleanup (display_sleep s))))
                        = Some (True, s')))"
proof -
  let ?t = "display_sleep s"
  let ?u = "display_cleanup ?t"
  have e: "emits s (cmd_calls s 0x10 @ data_calls s 0x01 @ [Usleep 100000]) ?t"
    using assms(1) by (rule display_sleep_emits)
  have h: "handles ?t = handles s" using e by (rule emits_handles)
  have a: "answer ?t = answer s" using e by (simp add: emits_def)
  have r: "ready ?t" using assms(1) handles_ready [OF h] by simp
  then have i: "initialized ?t" by (simp add: ready_def)
  have c: "calls ?t = calls s @ cmd_calls s 0x10 @ data_calls s 0x01 @ [Usleep 100000]"
    using e by (rule emits_calls)
  have init: "display_init ?t = (True, ?t)" using i by (simp add: display_init_def)
  note hc = handles_cmd_calls [OF h] handles_data_calls [OF h] handles_busy_polls [OF h]
  have raw: "\<exists>s' n. n \<le> 1000
             \<and> display_image_raw (Some frame) mode ?t = Some (True, s')
             \<and> handles s' = handles s
             \<and> calls s' = calls ?t
                  @ (if mode = DISPLAY_MODE_PARTIAL
                     then cmd_calls s 0x3C @ data_calls s 0x80 else [])
                  @ cmd_calls s 0x24
                  @ concat (map (data_calls s) (take EPD_ARRAY frame))
                  @ cmd_calls s 0x22
                  @ data_calls s (if mode = DISPLAY_MODE_FULL then 0xF7 else 0xFF)
                  @ cmd_calls s 0x20
                  @ busy_polls s n"
  proof -
    from display_image_raw_calls [OF r assms(2), of mode]
    obtain s' n where "n \<le> 1000" "display_image_raw (Some frame) mode ?t = Some (True, s')"
      and "emits ?t ((if mode = DISPLAY_MODE_PARTIAL
                        then cmd_calls s 0x3C @ data_calls s 0x80 else [])
                       @ cmd_calls s 0x24
                       @ concat (map (data_calls s) (take EPD_ARRAY frame))
                       @ cmd_calls s 0x22
                       @ data_calls s (if mode = DISPLAY_MODE_FULL then 0xF7 else 0xFF)
                       @ cmd_calls s 0x20
                       @ busy_polls s n) s'"
      unfolding hc by blast
    then show ?thesis using emits_after [OF e] by blast
  qed
  have png: "\<exists>s' n out. n \<le> 1000
             \<and> convert_png_to_1bit dec (Some name) (Some (replicate EPD_ARRAY 0))
                  = Some (True, Some out, [])
             \<and> length out = EPD_ARRAY
             \<and> display_image_png dec (Some name) mode ?t = Some (True, s')
             \<and> handles s' = handles s
             \<and> calls s' = calls ?t
                  @ (if mode = DISPLAY_MODE_PARTIAL
                     then cmd_calls s 0x3C @ data_calls s 0x80 else [])
                  @ cmd_calls s 0x24
                  @ concat (map (data_calls s) out)
                  @ cmd_calls s 0x22
                  @ data_calls s (if mode = DISPLAY_MODE_FULL then 0xF7 else 0xFF)
                  @ cmd_calls s 0x20
                  @ busy_polls s n"
  proof -
    from display_image_png_calls [of "display_sleep s" dec name mode, OF r assms(3-6)]
    obtain s' n out where n: "n \<le> 1000"
      and conv: "convert_png_to_1bit dec (Some name) (Some (replicate EPD_ARRAY 0))
                  = Some (True, Some out, [])"
      and len: "length out = EPD_ARRAY"
      and p: "display_image_png dec (Some name) mode ?t = Some (True, s')"
      and em: "emits ?t ((if mode = DISPLAY_MODE_PARTIAL
                        then cmd_calls s 0x3C @ data_calls s 0x80 else [])
                       @ cmd_calls s 0x24
                       @ concat (map (data_calls s) (take EPD_ARRAY out))
                       @ cmd_calls s 0x22
                       @ data_calls s (if mode = DISPLAY_MODE_FULL then 0xF7 else 0xFF)
                       @ cmd_calls s 0x20
                       @ busy_polls s n) s'"
      unfolding hc by blast
    have "take EPD_ARRAY out = out" using len by simp
    then show ?thesis using n conv len p emits_after [OF e em] by auto
  qed
  have clr: "\<exists>s' n. n \<le> 1000
             \<and> display_clear ?t = Some (True, s')
             \<and> handles s' = handles s
             \<and> calls s' = calls ?t
                  @ cmd_calls s 0x24
                  @ concat (replicate EPD_ARRAY (data_calls s 0xFF))
                  @ cmd_calls s 0x22 @ data_calls s 0xF7 @ cmd_calls s 0x20
                  @ busy_polls s n"
  proof -
    have "EPD_ARRAY \<le> length (replicate EPD_ARRAY (0xFF::byte))" by simp
    from display_image_raw_calls [OF r this, of DISPLAY_MODE_FULL]
    obtain s' n where n: "n \<le> 1000"
      and d: "display_image_raw (Some (replicate EPD_ARRAY 0xFF)) DISPLAY_MODE_FULL ?t = Some (True, s')"
      and em: "emits ?t (cmd_calls s 0x24
                       @ concat (replicate EPD_ARRAY (data_calls s 0xFF))
                       @ cmd_calls s 0x22 @ data_calls s 0xF7 @ cmd_calls s 0x20
                       @ busy_polls s n) s'"
      unfolding hc by auto
    then show ?thesis using display_clear_eq [OF i] emits_after [OF e em] by auto
  qed
  have n: "\<not> initialized ?u" by (rule display_cleanup_not_initialized)
  have again: "ready (snd (display_init ?u))
              \<and> (\<exists>s'. display_image_raw (Some frame) mode (snd (display_init ?u)) = Some (True, s'))
              \<and> (\<exists>s'. display_image_png dec (Some name) mode (snd (display_init ?u)) = Some (True, s'))
              \<and> (\<exists>s'. display_clear (snd (display_init ?u)) = Some (True, s'))"
    if ok: "fst (display_init ?u)"
  proof -
    let ?v = "snd (display_init ?u)"
    have "display_init ?u = (True, ?v)" using ok by (cases "display_init ?u") simp
    then have rv: "ready ?v" using n by (rule display_init_ready)
    then have iv: "initialized ?v" by (simp add: ready_def)
    have "EPD_ARRAY \<le> length (replicate EPD_ARRAY (0xFF::byte))" by simp
    from display_image_raw_calls [OF rv this, of DISPLAY_MODE_FULL]
    have "\<exists>s'. display_clear ?v = Some (True, s')"
      using display_clear_eq [OF iv] by auto
    moreover have "\<exists>s'. display_image_raw (Some frame) mode ?v = Some (True, s')"
      using display_image_raw_calls [OF rv assms(2), of mode] by blast
    moreover have "\<exists>s'. display_image_png dec (Some name) mode ?v = Some (True, s')"
      using display_image_png_ok [of ?v dec name mode, OF rv assms(3-6)] .
    ultimately show ?thesis using rv by blast
  qed
  show ?thesis
    using h a r c init raw png clr display_not_initialized [OF n] again
    by (intro conjI impI) blast+
qed

text \<open>
  A Ready handle on descriptor 3 whose call number \<open>n\<close> is answered \<open>n + 3\<close>: the
  variables after \<open>display_sleep\<close>, its seven calls, the \<open>display_clear\<close> that
  follows with the first calls of its frame write, and the initialization that succeeds
  after a teardown.
\<close>

theorem display_sleep_keeps_handle_ready_witness:
  "ready \<lparr>spi_fd = 3, chip = 4096, dc_line = 4104, rst_line = 4112, busy_line = 4120,
          initialized = True, calls = [], console = [], answer = (\<lambda>n. int n + 3)\<rparr>
   \<and> handles (display_sleep
        \<lparr>spi_fd = 3, chip = 4096, dc_line = 4104, rst_line = 4112, busy_line = 4120,
         initialized = True, calls = [], console = [], answer = (\<lambda>n. int n + 3)\<rparr>)
       = (3, 4096, 4104, 4112, 4120, True)
   \<and> calls (display_sleep
        \<lparr>spi_fd = 3, chip = 4096, dc_line = 4104, rst_line = 4112, busy_line = 4120,
         initialized = True, calls = [], console = [], answer = (\<lambda>n. int n + 3)\<rparr>)
       = [Usleep 10, Gpiod_line_set_value 4104 0, Spi_transfer 3 0x10,
          Usleep 10, Gpiod_line_set_value 4104 1, Spi_transfer 3 0x01, Usleep 100000]
   \<and> (\<exists>s'. display_clear (display_sleep
              \<lparr>spi_fd = 3, chip = 4096, dc_line = 4104, rst_line = 4112, busy_line = 4120,
               initialized = True, calls = [], console = [], answer = (\<lambda>n. int n + 3)\<rparr>)
            = Some (True, s')
          \<and> take 10 (calls s')
              = [Usleep 10, Gpiod_line_set_value 4104 0, Spi_transfer 3 0x10,
                 Usleep 10, Gpiod_line_set_value 4104 1, Spi_transfer 3 0x01, Usleep 100000,
                 Usleep 10, Gpiod_line_set_value 4104 0, Spi_transfer 3 0x24])
   \<and> fst (display_init (display_cleanup (display_sleep
        \<lparr>spi_fd = 3, chip = 4096, dc_line = 4104, rst_line = 4112, busy_line = 4120,
         initialized = True, calls = [], console = [], answer = (\<lambda>n. int n + 3)\<rparr>)))
   \<and> ready (snd (display_init (display_cleanup (display_sleep
        \<lparr>spi_fd = 3, chip = 4096, dc_line = 4104, rst_line = 4112, busy_line = 4120,
         initialized = True, calls = [], console = [], answer = (\<lambda>n. int n + 3)\<rparr>))))"
proof -
  let ?s = "\<lparr>spi_fd = 3, chip = 4096, dc_line = 4104, rst_line = 4112, busy_line = 4120,
             initialized = True, calls = [], console = [],
             answer = (\<lambda>n::nat. int n + 3)\<rparr>"
  let ?dec = "\<lambda>name::string. \<lparr>png_error = 0, png_width = 128, png_height = 250,
                                 png_image = replicate 128000 (0::byte)\<rparr>"
  let ?t = "display_sleep ?s"
  let ?u = "display_cleanup ?t"
  have r: "ready ?s" by (simp add: ready_def)
  have f: "EPD_ARRAY \<le> length (replicate 4000 (0x00::byte))" by (simp add: panel_consts)
  have d: "png_error (?dec ''a.png'') = 0" "png_width (?dec ''a.png'') = EPD_WIDTH"
    "png_height (?dec ''a.png'') = EPD_HEIGHT"
    "length (png_image (?dec ''a.png'')) = 4 * EPD_WIDTH * EPD_HEIGHT"
    by (simp_all add: panel_consts)
  note inst = display_sleep_keeps_handle_ready [OF r f d, of DISPLAY_MODE_FULL]
  from inst have h: "handles ?t = handles ?s" and a: "answer ?t = answer ?s"
    and c: "calls ?t = calls ?s @ cmd_calls ?s 0x10 @ data_calls ?s 0x01 @ [Usleep 100000]"
    by blast+
  have c7: "calls ?t = [Usleep 10, Gpiod_line_set_value 4104 0, Spi_transfer 3 0x10,
          Usleep 10, Gpiod_line_set_value 4104 1, Spi_transfer 3 0x01, Usleep 100000]"
    using c by (simp add: cmd_calls_def data_calls_def)
  from inst obtain s' where clr: "display_clear ?t = Some (True, s')"
    and "\<exists>n. calls s' = calls ?t
                  @ cmd_calls ?s 0x24
                  @ concat (replicate EPD_ARRAY (data_calls ?s 0xFF))
                  @ cmd_calls ?s 0x22 @ data_calls ?s 0xF7 @ cmd_calls ?s 0x20
                  @ busy_polls ?s n"
    by blast
  then have c10: "take 10 (calls s')
              = [Usleep 10, Gpiod_line_set_value 4104 0, Spi_transfer 3 0x10,
                 Usleep 10, Gpiod_line_set_value 4104 1, Spi_transfer 3 0x01, Usleep 100000,
                 Usleep 10, Gpiod_line_set_value 4104 0, Spi_transfer 3 0x24]"
    unfolding c7 by (auto simp add: cmd_calls_def)
  have "\<not> initialized ?u" by (rule display_cleanup_not_initialized)
  moreover have "0 < answer ?u n" for n
    using a by (simp add: display_cleanup_answer)
  ultimately have ok: "fst (display_init ?u)" by (rule display_init_succeeds)
  with inst have rv: "ready (snd (display_init ?u))" by blast
  have hs: "handles ?t = (3, 4096, 4104, 4112, 4120, True)" using h by (simp add: handles_def)
  show ?thesis using r hs c7 clr c10 ok rv by blast
qed

text \<open>
  Claim C3 as stated fails: on the same Ready handle, \<open>display_clear\<close> called right
  after \<open>display_sleep\<close>, with no \<open>display_init\<close> in between, returns true.
\<close>

theorem display_after_sleep_counterexample:
  "ready \<lparr>spi_fd = 3, chip = 4096, dc_line = 4104, rst_line = 4112, busy_line = 4120,
          initialized = True, calls = [], console = [], answer = (\<lambda>n. 0)\<rparr>
   \<and> map_option fst
        (display_clear
          (display_sleep
            \<lparr>spi_fd = 3, chip = 4096, dc_line = 4104, rst_line = 4112, busy_line = 4120,
             initialized = True, calls = [], console = [], answer = (\<lambda>n. 0)\<rparr>))
       = Some True"
proof -
  let ?s = "\<lparr>spi_fd = 3, chip = 4096, dc_line = 4104, rst_line = 4112, busy_line = 4120,
             initialized = True, calls = [], console = [], answer = (\<lambda>n::nat. 0::int)\<rparr>"
  have r: "ready ?s" by (simp add: ready_def)
  then have r': "ready (display_sleep ?s)"
    using handles_ready [OF emits_handles [OF display_sleep_emits]] by blast
  then have i: "initialized (display_sleep ?s)" by (simp add: ready_def)
  have "EPD_ARRAY \<le> length (replicate EPD_ARRAY (0xFF::byte))" by simp
  from display_image_raw_calls [OF r' this, of DISPLAY_MODE_FULL]
  obtain s' where "display_clear (display_sleep ?s) = Some (True, s')"
    using display_clear_eq [OF i] by auto
  then show ?thesis using r by simp
qed

subsection \<open>Dimensions\<close>

text \<open>
  Claim C10. \<open>display_get_dimensions\<close> in every driver state and for each of the
  four combinations of null and non-null arguments: it stores 128 at the width address
  when there is one, then 250 at the height address when there is one, and changes
  neither another object nor the driver.
\<close>

theorem display_get_dimensions_writes:
  "display_get_dimensions None None (mem, s) = (mem, s)
   \<and> display_get_dimensions (Some a) None (mem, s) = (mem(a := 128), s)
   \<and> display_get_dimensions None (Some b) (mem, s) = (mem(b := 250), s)
   \<and> display_get_dimensions (Some a) (Some b) (mem, s) = (mem(a := 128, b := 250), s)"
  by (simp add: display_get_dimensions_def panel_consts)

end
